theory Spec2Isabelle
  imports Main "HOL-Library.Word" "HOL-Library.Sublist" "HOL-Library.List_Lexorder"
begin

section \<open>The sources\<close>

text \<open>
  The file src/memory.js holds three revisions of the module \<^verbatim>\<open>MemoryStore\<close> one after the
  other (with caches, lines 12--203; with prepared statements, lines 225--423; with prepared
  statements and input validation, lines 445--695) and, from line 706 on, the bot that uses
  the store: the model client, the extractors, context assembly, the message handler and
  the proactive scheduler. The file src/index.js holds an earlier revision of the bot, with
  a model client that makes one attempt, a handler without the length check and no
  scheduler. The store embedded below is the revision with validation, beside it the
  revision with caches; the bot is the one of src/memory.js. The statements of the three
  store revisions are the same SQL text; the revision with caches creates none of the
  indexes that the other two create.
\<close>

section \<open>Values\<close>

text \<open>
  A JavaScript string is a sequence of UTF-16 code units; \<open>length\<close> counts code units, as
  \<^verbatim>\<open>String.prototype.length\<close> does. \<open>js\<close> embeds an ASCII literal.
  User identifiers are Telegram chat ids. The handlers have them as the number
  \<^verbatim>\<open>msg.chat.id\<close>; the only falsy number is \<open>0\<close>, which is what the guards \<^verbatim>\<open>!userId\<close> reject.
  Time stamps are the milliseconds of \<^verbatim>\<open>Date.now()\<close>, read from the environment and passed
  to every operation that reads the clock. The statements of the storage engine are taken
  to succeed; a storage failure is modelled where a caller handles it, in context assembly
  and in the scheduler.
\<close>

type_synonym jchar = "16 word"
type_synonym jstring = "jchar list"
type_synonym user_id = int
type_synonym timestamp = int

text \<open>
  The column \<^verbatim>\<open>user_id\<close> of the three tables is declared \<^verbatim>\<open>TEXT\<close>. SQLite stores a number
  written to such a column as text, compares a number bound to \<^verbatim>\<open>user_id = ?\<close> as that text,
  and a \<^verbatim>\<open>SELECT\<close> returns the column as a string. So the rows of a chat are found whichever
  way its id is given, and the rows below carry the number of the chat; but the ids that
  \<^verbatim>\<open>getUserIds\<close> returns are strings, and as the key of a \<^verbatim>\<open>Map\<close> a string is not the number it
  was made from. \<open>IdText u\<close> is the text stored for the number \<open>u\<close>; different chat ids are
  stored as different texts.
\<close>

datatype id_value = IdNumber user_id | IdText user_id

fun chat_of :: "id_value \<Rightarrow> user_id" where
  "chat_of (IdNumber u) = u"
| "chat_of (IdText u) = u"

definition js :: "string \<Rightarrow> jstring" where
  "js s = map (\<lambda>c. of_nat (of_char c)) s"

datatype error =
    InvalidParametersAdd
  | InvalidParametersFact
  | InvalidParametersMood
  | InvalidMessagesArray
  | EmptyContent
  | TransportError nat
  | BuildMessagesMissingParameters
  | StorageError

section \<open>The database (src/memory.js, \<^verbatim>\<open>init\<close>)\<close>

text \<open>
  Three tables, each with an \<^verbatim>\<open>INTEGER PRIMARY KEY AUTOINCREMENT\<close> id. A table is the list of
  its rows in rowid order, which is insertion order; the counters play the part of
  \<^verbatim>\<open>sqlite_sequence\<close>: an id is never handed out twice, also after rows were deleted.
\<close>

record message_row =
  msg_id :: nat
  msg_user :: user_id
  msg_role :: jstring
  msg_content :: jstring
  msg_created :: timestamp

record memory_row =
  mem_id :: nat
  mem_user :: user_id
  mem_fact :: jstring
  mem_created :: timestamp

record mood_row =
  mood_id :: nat
  mood_user :: user_id
  mood_text :: jstring
  mood_created :: timestamp

record db =
  messages :: "message_row list"
  memories :: "memory_row list"
  moods :: "mood_row list"
  seq_messages :: nat
  seq_memories :: nat
  seq_moods :: nat

definition empty_db :: db where
  "empty_db = \<lparr>messages = [], memories = [], moods = [],
               seq_messages = 1, seq_memories = 1, seq_moods = 1\<rparr>"

text \<open>What a \<^verbatim>\<open>SELECT role, content\<close> row is on the JavaScript side.\<close>

record chat_message =
  role :: jstring
  content :: jstring

definition project_message :: "message_row \<Rightarrow> chat_message" where
  "project_message r = \<lparr>role = msg_role r, content = msg_content r\<rparr>"

subsection \<open>SQL building blocks\<close>

text \<open>
  \<^verbatim>\<open>LIMIT n\<close>: a negative \<open>n\<close> means no limit (the statement \<^verbatim>\<open>deleteOldMoods\<close> itself relies on
  \<^verbatim>\<open>LIMIT -1 OFFSET 50\<close>). \<^verbatim>\<open>ORDER BY created_at\<close> leaves the order of rows with the same time
  stamp to the engine, which decides it by the index it has. With the index on
  \<^verbatim>\<open>(user_id, created_at)\<close> that the tables of messages and moods have in this revision, \<^verbatim>\<open>ASC\<close>
  walks the index forwards, so rows of equal time stamp come in rowid order, and \<^verbatim>\<open>DESC\<close>
  walks it backwards: the same order reversed. The table of facts has no such index: its
  rows are found by the index on \<^verbatim>\<open>user_id\<close>, in rowid order, and then sorted, and the sort
  keeps rows of equal time stamp in the order it was given them.
\<close>

definition sql_limit :: "int \<Rightarrow> 'a list \<Rightarrow> 'a list" where
  "sql_limit n xs = (if n < 0 then xs else take (nat n) xs)"

definition order_asc :: "('r \<Rightarrow> timestamp) \<Rightarrow> 'r list \<Rightarrow> 'r list" where
  "order_asc created xs = sort_key created xs"

definition order_desc :: "('r \<Rightarrow> timestamp) \<Rightarrow> 'r list \<Rightarrow> 'r list" where
  "order_desc created xs = rev (sort_key created xs)"

definition order_desc_sorted :: "('r \<Rightarrow> timestamp) \<Rightarrow> 'r list \<Rightarrow> 'r list" where
  "order_desc_sorted created xs = sort_key (\<lambda>r. - created r) xs"

definition user_messages :: "db \<Rightarrow> user_id \<Rightarrow> message_row list" where
  "user_messages s u = filter (\<lambda>r. msg_user r = u) (messages s)"

definition user_memories :: "db \<Rightarrow> user_id \<Rightarrow> memory_row list" where
  "user_memories s u = filter (\<lambda>r. mem_user r = u) (memories s)"

definition user_moods :: "db \<Rightarrow> user_id \<Rightarrow> mood_row list" where
  "user_moods s u = filter (\<lambda>r. mood_user r = u) (moods s)"

subsection \<open>The prepared statements\<close>

definition insertMessage :: "db \<Rightarrow> user_id \<Rightarrow> jstring \<Rightarrow> jstring \<Rightarrow> timestamp \<Rightarrow> db" where
  "insertMessage s u r c now =
     s\<lparr>messages := messages s @
          [\<lparr>msg_id = seq_messages s, msg_user = u, msg_role = r, msg_content = c,
            msg_created = now\<rparr>],
       seq_messages := Suc (seq_messages s)\<rparr>"

text \<open>\<^verbatim>\<open>ON CONFLICT(user_id, fact) DO NOTHING\<close>: a row with the same user and fact text keeps the
  table as it is.\<close>

definition insertMemory :: "db \<Rightarrow> user_id \<Rightarrow> jstring \<Rightarrow> timestamp \<Rightarrow> db" where
  "insertMemory s u f now =
     (if list_ex (\<lambda>r. mem_user r = u \<and> mem_fact r = f) (memories s) then s
      else s\<lparr>memories := memories s @
                [\<lparr>mem_id = seq_memories s, mem_user = u, mem_fact = f, mem_created = now\<rparr>],
             seq_memories := Suc (seq_memories s)\<rparr>)"

definition insertMood :: "db \<Rightarrow> user_id \<Rightarrow> jstring \<Rightarrow> timestamp \<Rightarrow> db" where
  "insertMood s u m now =
     s\<lparr>moods := moods s @
          [\<lparr>mood_id = seq_moods s, mood_user = u, mood_text = m, mood_created = now\<rparr>],
       seq_moods := Suc (seq_moods s)\<rparr>"

definition getMessageCount :: "db \<Rightarrow> user_id \<Rightarrow> nat" where
  "getMessageCount s u = length (user_messages s u)"

definition getMemories :: "db \<Rightarrow> user_id \<Rightarrow> jstring list" where
  "getMemories s u = map mem_fact (order_desc_sorted mem_created (user_memories s u))"

definition getMood :: "db \<Rightarrow> user_id \<Rightarrow> jstring option" where
  "getMood s u =
     (case sql_limit 1 (order_desc mood_created (user_moods s u)) of
        [] \<Rightarrow> None
      | r # _ \<Rightarrow> Some (mood_text r))"

definition getRecentMessages :: "db \<Rightarrow> user_id \<Rightarrow> int \<Rightarrow> chat_message list" where
  "getRecentMessages s u n =
     map project_message (sql_limit n (order_desc msg_created (user_messages s u)))"

definition getAllMessages :: "db \<Rightarrow> user_id \<Rightarrow> chat_message list" where
  "getAllMessages s u = map project_message (order_asc msg_created (user_messages s u))"

definition clearMessages :: "db \<Rightarrow> user_id \<Rightarrow> db" where
  "clearMessages s u = s\<lparr>messages := filter (\<lambda>r. msg_user r \<noteq> u) (messages s)\<rparr>"

definition clearMemories :: "db \<Rightarrow> user_id \<Rightarrow> db" where
  "clearMemories s u = s\<lparr>memories := filter (\<lambda>r. mem_user r \<noteq> u) (memories s)\<rparr>"

definition clearMoods :: "db \<Rightarrow> user_id \<Rightarrow> db" where
  "clearMoods s u = s\<lparr>moods := filter (\<lambda>r. mood_user r \<noteq> u) (moods s)\<rparr>"

text \<open>\<^verbatim>\<open>DELETE FROM moods WHERE id IN (SELECT id FROM moods WHERE user_id = ?
  ORDER BY created_at DESC LIMIT -1 OFFSET 50)\<close>\<close>

definition deleteOldMoods :: "db \<Rightarrow> user_id \<Rightarrow> db" where
  "deleteOldMoods s u =
     (let ids = map mood_id (drop 50 (sql_limit (- 1) (order_desc mood_created (user_moods s u))))
      in s\<lparr>moods := filter (\<lambda>r. mood_id r \<notin> set ids) (moods s)\<rparr>)"

text \<open>\<^verbatim>\<open>SELECT DISTINCT user_id FROM messages\<close>: every user once, in no specified order; here
  the chats, below in \<open>getUserIds\<close> the strings of the column.\<close>

definition getUserIds_stmt :: "db \<Rightarrow> user_id list" where
  "getUserIds_stmt s = remdups (map msg_user (messages s))"

section \<open>MemoryStore, the revision with input validation (src/memory.js, lines 445--695)\<close>

text \<open>\<^verbatim>\<open>typeof content !== 'string'\<close> is false for every \<open>jstring\<close>; a string is falsy when empty.\<close>

definition add :: "db \<Rightarrow> user_id \<Rightarrow> jstring \<Rightarrow> jstring \<Rightarrow> timestamp \<Rightarrow> error + db" where
  "add s u r c now =
     (if u = 0 \<or> r = [] then Inl InvalidParametersAdd
      else Inr (insertMessage s u r c now))"

definition addImportantFact :: "db \<Rightarrow> user_id \<Rightarrow> jstring \<Rightarrow> timestamp \<Rightarrow> error + db" where
  "addImportantFact s u f now =
     (if u = 0 \<or> f = [] then Inl InvalidParametersFact
      else Inr (insertMemory s u f now))"

definition addMood :: "db \<Rightarrow> user_id \<Rightarrow> jstring \<Rightarrow> timestamp \<Rightarrow> error + db" where
  "addMood s u m now =
     (if u = 0 \<or> m = [] then Inl InvalidParametersMood
      else Inr (deleteOldMoods (insertMood s u m now) u))"

definition getImportantFacts :: "db \<Rightarrow> user_id \<Rightarrow> jstring list" where
  "getImportantFacts s u = getMemories s u"

definition getRecentMood :: "db \<Rightarrow> user_id \<Rightarrow> jstring option" where
  "getRecentMood s u = getMood s u"

text \<open>\<^verbatim>\<open>getRecent(userId, limit = 15)\<close>: an omitted limit is \<open>None\<close>.
  \<^verbatim>\<open>const maxLimit = Math.min(limit, 50)\<close>, then the rows of the statement, reversed.\<close>

definition getRecent :: "db \<Rightarrow> user_id \<Rightarrow> int option \<Rightarrow> chat_message list" where
  "getRecent s u limit =
     (let maxLimit = min (case limit of None \<Rightarrow> 15 | Some n \<Rightarrow> n) 50
      in rev (getRecentMessages s u maxLimit))"

text \<open>\<^verbatim>\<open>xs.slice(-k)\<close> for a positive \<open>k\<close>: the last \<open>k\<close> elements, all of them when there are fewer.\<close>

definition slice_last :: "nat \<Rightarrow> 'a list \<Rightarrow> 'a list" where
  "slice_last k xs = drop (length xs - k) xs"

definition getAll :: "db \<Rightarrow> user_id \<Rightarrow> chat_message list" where
  "getAll s u = slice_last 100 (getAllMessages s u)"

definition getChatCount :: "db \<Rightarrow> user_id \<Rightarrow> nat" where
  "getChatCount s u = length (user_messages s u)"

definition clear :: "db \<Rightarrow> user_id \<Rightarrow> db" where
  "clear s u = clearMoods (clearMemories (clearMessages s u) u) u"

text \<open>\<^verbatim>\<open>getUserIds.all().map((row) => row.user_id)\<close>\<close>

definition getUserIds :: "db \<Rightarrow> id_value list" where
  "getUserIds s = map IdText (getUserIds_stmt s)"

subsection \<open>Sequences of store calls\<close>

text \<open>
  A caller drives the store by a sequence of calls, each with the clock reading it sees. A call
  that throws leaves the database as it was (every throw of these methods precedes the
  first statement).
\<close>

datatype store_op =
    OpAdd user_id jstring jstring timestamp
  | OpAddImportantFact user_id jstring timestamp
  | OpAddMood user_id jstring timestamp
  | OpClear user_id
  | OpGetImportantFacts user_id
  | OpGetRecentMood user_id


definition keep_on_error :: "db \<Rightarrow> error + db \<Rightarrow> db" where
  "keep_on_error s r = (case r of Inl e \<Rightarrow> s | Inr s' \<Rightarrow> s')"


fun apply_op :: "db \<Rightarrow> store_op \<Rightarrow> db" where
  "apply_op s (OpAdd u r c now) = keep_on_error s (add s u r c now)"
| "apply_op s (OpAddImportantFact u f now) = keep_on_error s (addImportantFact s u f now)"
| "apply_op s (OpAddMood u m now) = keep_on_error s (addMood s u m now)"
| "apply_op s (OpClear u) = clear s u"
| "apply_op s (OpGetImportantFacts u) = s"
| "apply_op s (OpGetRecentMood u) = s"


definition run_ops :: "store_op list \<Rightarrow> db \<Rightarrow> db" where
  "run_ops ops s = foldl apply_op s ops"


text \<open>The clock readings of a sequence of calls, in the order they are taken.\<close>

fun op_time :: "store_op \<Rightarrow> timestamp list" where
  "op_time (OpAdd u r c now) = [now]"
| "op_time (OpAddImportantFact u f now) = [now]"
| "op_time (OpAddMood u m now) = [now]"
| "op_time (OpClear u) = []"
| "op_time (OpGetImportantFacts u) = []"
| "op_time (OpGetRecentMood u) = []"

definition op_times :: "store_op list \<Rightarrow> timestamp list" where
  "op_times ops = concat (map op_time ops)"








subsection \<open>What the schema and the validation maintain\<close>

definition unique_facts :: "db \<Rightarrow> bool" where
  "unique_facts s = distinct (map (\<lambda>r. (mem_user r, mem_fact r)) (memories s))"

definition valid_facts :: "db \<Rightarrow> bool" where
  "valid_facts s = list_all (\<lambda>r. mem_user r \<noteq> 0 \<and> mem_fact r \<noteq> []) (memories s)"

definition mood_ids_ok :: "db \<Rightarrow> bool" where
  "mood_ids_ok s =
     (distinct (map mood_id (moods s)) \<and> list_all (\<lambda>r. mood_id r < seq_moods s) (moods s))"

text \<open>The mood of the row of the user that was inserted last, among the rows still stored.\<close>

definition latest_inserted_mood :: "db \<Rightarrow> user_id \<Rightarrow> jstring option" where
  "latest_inserted_mood s u =
     (if user_moods s u = [] then None else Some (mood_text (last (user_moods s u))))"

text \<open>The store after \<open>k\<close> more messages of a user, written at the times \<open>t, t + 1, \<dots>\<close>.\<close>

fun add_many :: "nat \<Rightarrow> db \<Rightarrow> user_id \<Rightarrow> timestamp \<Rightarrow> db" where
  "add_many 0 s u t = s"
| "add_many (Suc k) s u t = add_many k (keep_on_error s (add s u (js ''user'') (js ''hi'') t)) u (t + 1)"

section \<open>MemoryStore, the revision with the caches (src/memory.js, lines 12--203)\<close>

















section \<open>Strings\<close>

text \<open>
  The white space of \<^verbatim>\<open>String.prototype.trim\<close> and of the regular expression class
  \<^verbatim>\<open>\s\<close>: tab, line feed, vertical tab, form feed, carriage return, space, no-break space,
  U+1680, U+2000 to U+200A, U+2028, U+2029, U+202F, U+205F, U+3000 and U+FEFF.
\<close>

definition is_js_space :: "jchar \<Rightarrow> bool" where
  "is_js_space c =
     (c = 0x09 \<or> c = 0x0A \<or> c = 0x0B \<or> c = 0x0C \<or> c = 0x0D \<or> c = 0x20 \<or> c = 0xA0
      \<or> c = 0x1680 \<or> (0x2000 \<le> c \<and> c \<le> 0x200A) \<or> c = 0x2028 \<or> c = 0x2029
      \<or> c = 0x202F \<or> c = 0x205F \<or> c = 0x3000 \<or> c = 0xFEFF)"

definition js_trim :: "jstring \<Rightarrow> jstring" where
  "js_trim s = rev (dropWhile is_js_space (rev (dropWhile is_js_space s)))"

text \<open>\<^verbatim>\<open>line.replace(/^[-\u2022*]\s*/, '')\<close> (the source writes the bullet U+2022 itself): one
  leading hyphen, bullet or asterisk, and the white space after it.\<close>

definition is_bullet :: "jchar \<Rightarrow> bool" where
  "is_bullet c = (c = 0x2D \<or> c = 0x2022 \<or> c = 0x2A)"

definition strip_bullet :: "jstring \<Rightarrow> jstring" where
  "strip_bullet line =
     (case line of
        [] \<Rightarrow> []
      | c # cs \<Rightarrow> if is_bullet c then dropWhile is_js_space cs else line)"

text \<open>\<^verbatim>\<open>s.split(sep)\<close> for a one-character separator: never an empty array.\<close>

fun split_on :: "jchar \<Rightarrow> jstring \<Rightarrow> jstring list" where
  "split_on d [] = [[]]"
| "split_on d (c # cs) =
     (if c = d then [] # split_on d cs
      else (case split_on d cs of [] \<Rightarrow> [[c]] | l # ls \<Rightarrow> (c # l) # ls))"

text \<open>\<^verbatim>\<open>xs.join(sep)\<close>\<close>

fun join :: "jstring \<Rightarrow> jstring list \<Rightarrow> jstring" where
  "join sep [] = []"
| "join sep [x] = x"
| "join sep (x # y # ys) = x @ sep @ join sep (y # ys)"

text \<open>A non-negative integer in a template literal: its decimal digits.\<close>

fun show_nat :: "nat \<Rightarrow> jstring" where
  "show_nat n =
     (if n < 10 then [of_nat (48 + n)] else show_nat (n div 10) @ [of_nat (48 + n mod 10)])"

text \<open>\<^verbatim>\<open>a || b\<close> on strings that may be missing: the first one that is present and not empty.\<close>

definition truthy :: "jstring option \<Rightarrow> jstring option" where
  "truthy x = (case x of None \<Rightarrow> None | Some [] \<Rightarrow> None | Some (c # cs) \<Rightarrow> Some (c # cs))"

definition js_or :: "jstring option \<Rightarrow> jstring option \<Rightarrow> jstring option" where
  "js_or a b = (case truthy a of Some x \<Rightarrow> Some x | None \<Rightarrow> b)"

text \<open>\<^verbatim>\<open>xs[Math.floor(Math.random() * xs.length)]\<close>: the random number only decides which
  index below the length is taken.\<close>

definition pick :: "'a list \<Rightarrow> nat \<Rightarrow> 'a" where
  "pick xs r = xs ! (r mod length xs)"

definition newline :: jchar where
  "newline = 0x0A"

subsection \<open>The literals of src/memory.js\<close>

definition NOTHING_SIGNAL :: jstring where
  "NOTHING_SIGNAL =
    [0x65E0]"

definition TOO_LONG_NOTICE :: jstring where
  "TOO_LONG_NOTICE =
    [0x6D88, 0x606F, 0x592A, 0x957F, 0x4E86, 0xFF0C, 0x6211, 0x5904, 0x7406, 0x4E0D, 0x4E86,
     0x002E, 0x002E, 0x002E]"

definition HMM_REPLY :: jstring where
  "HMM_REPLY =
    [0x55EF, 0x002E, 0x002E, 0x002E]"

definition NATURAL_REPLY_0 :: jstring where
  "NATURAL_REPLY_0 =
    [0x521A, 0x624D, 0x5361, 0x4F4F, 0x4E86, 0xFF0C, 0x4F60, 0x8BF4, 0x5565, 0xFF1F]"

definition NATURAL_REPLY_1 :: jstring where
  "NATURAL_REPLY_1 =
    [0x6CA1, 0x542C, 0x6E05, 0xFF0C, 0x518D, 0x8BF4, 0x4E00, 0x904D, 0xFF1F]"

definition NATURAL_REPLY_2 :: jstring where
  "NATURAL_REPLY_2 =
    [0x6709, 0x70B9, 0x8D70, 0x795E, 0x4E86, 0x002E, 0x002E, 0x002E]"

definition NATURAL_REPLY_3 :: jstring where
  "NATURAL_REPLY_3 =
    [0x4FE1, 0x53F7, 0x4E0D, 0x597D, 0x5417, 0xFF0C, 0x6211, 0x6CA1, 0x6536, 0x5230]"

definition SPEAKER_OTHER :: jstring where
  "SPEAKER_OTHER =
    [0x5BF9, 0x65B9]"

definition SPEAKER_ROSE :: jstring where
  "SPEAKER_ROSE =
    [0x0052, 0x006F, 0x0073, 0x0065]"

definition CONVERSATION_HEADER :: jstring where
  "CONVERSATION_HEADER =
    [0x000A, 0x000A, 0x5BF9, 0x8BDD, 0x8BB0, 0x5F55, 0x003A, 0x000A]"

definition REMEMBER_FOOTER :: jstring where
  "REMEMBER_FOOTER =
    [0x000A, 0x000A, 0x9700, 0x8981, 0x8BB0, 0x4F4F, 0x7684, 0x4FE1, 0x606F, 0x003A]"

definition GAP_LONG_PREFIX :: jstring where
  "GAP_LONG_PREFIX =
    [0x8DDD, 0x79BB, 0x4E0A, 0x6B21, 0x804A, 0x5929, 0x5DF2, 0x7ECF, 0x8FC7, 0x4E86]"

definition GAP_LONG_SUFFIX :: jstring where
  "GAP_LONG_SUFFIX =
    [0x5C0F, 0x65F6, 0x4E86, 0xFF0C, 0x53EF, 0x4EE5, 0x81EA, 0x7136, 0x5730, 0x95EE, 0x5019,
     0x4E00, 0x53E5]"

definition GAP_SHORT :: jstring where
  "GAP_SHORT =
    [0x9694, 0x4E86, 0x4E00, 0x4F1A, 0x513F, 0x624D, 0x56DE, 0xFF0C, 0x53EF, 0x4EE5, 0x7B80,
     0x5355, 0x8BF4, 0x4E00, 0x53E5]"

definition LAST_MOOD_SEPARATOR :: jstring where
  "LAST_MOOD_SEPARATOR =
    [0xFF0C, 0x4E0A, 0x6B21, 0x5BF9, 0x8BDD, 0x5FC3, 0x60C5, 0x003A, 0x0020]"

definition SYSTEM_HINT_PREFIX :: jstring where
  "SYSTEM_HINT_PREFIX =
    [0x005B, 0x7CFB, 0x7EDF, 0x63D0, 0x793A, 0x003A, 0x0020]"

definition FRIEND :: jstring where
  "FRIEND =
    [0x670B, 0x53CB]"

definition ACTIVE_PROMPT_HEAD :: jstring where
  "ACTIVE_PROMPT_HEAD =
    [0x4F60, 0x662F, 0x0020, 0x0052, 0x006F, 0x0073, 0x0065, 0x3002, 0x73B0, 0x5728, 0x4E3B,
     0x52A8, 0x8054, 0x7CFB]"

definition ACTIVE_PROMPT_TIME :: jstring where
  "ACTIVE_PROMPT_TIME =
    [0x804A, 0x5929, 0x3002, 0x000A, 0x000A, 0x5F53, 0x524D, 0x65F6, 0x95F4, 0x4FE1, 0x606F,
     0xFF1A]"

definition ACTIVE_PROMPT_FACTS :: jstring where
  "ACTIVE_PROMPT_FACTS =
    [0x000A, 0x000A, 0x4F60, 0x8BB0, 0x5F97, 0x5173, 0x4E8E, 0x0054, 0x0061, 0x7684, 0x4E8B,
     0xFF1A]"

definition ACTIVE_PROMPT_MOOD :: jstring where
  "ACTIVE_PROMPT_MOOD =
    [0x000A, 0x000A, 0x0054, 0x0061, 0x4E0A, 0x6B21, 0x804A, 0x5929, 0x7684, 0x5FC3, 0x60C5,
     0xFF1A]"

definition ACTIVE_PROMPT_COUNT_PREFIX :: jstring where
  "ACTIVE_PROMPT_COUNT_PREFIX =
    [0x000A, 0x000A, 0x4F60, 0x4EEC, 0x5DF2, 0x7ECF, 0x804A, 0x8FC7]"

definition ACTIVE_PROMPT_COUNT_SUFFIX :: jstring where
  "ACTIVE_PROMPT_COUNT_SUFFIX =
    [0x6B21, 0x4E86]"

definition ACTIVE_PROMPT_TAIL :: jstring where
  "ACTIVE_PROMPT_TAIL =
    [0x000A, 0x000A, 0x8BF7, 0x751F, 0x6210, 0x4E00, 0x6761, 0x81EA, 0x7136, 0x3001, 0x4E3B,
     0x52A8, 0x7684, 0x6253, 0x62DB, 0x547C, 0x6D88, 0x606F, 0xFF0C, 0x53EF, 0x4EE5, 0x662F,
     0x95EE, 0x5019, 0x3001, 0x5173, 0x5FC3, 0x3001, 0x5206, 0x4EAB, 0x65E5, 0x5E38, 0x6216,
     0x63D0, 0x51FA, 0x8BDD, 0x9898, 0x3002, 0x8BED, 0x6C14, 0x81EA, 0x7136, 0xFF0C, 0x5C31,
     0x50CF, 0x771F, 0x4EBA, 0x670B, 0x53CB, 0x4E00, 0x6837, 0x3002]"

definition DEFAULT_ACTIVE_0 :: jstring where
  "DEFAULT_ACTIVE_0 =
    [0x563F, 0xFF0C, 0x6700, 0x8FD1, 0x5728, 0x5FD9, 0x5565, 0x5462, 0xFF1F]"

definition DEFAULT_ACTIVE_1 :: jstring where
  "DEFAULT_ACTIVE_1 =
    [0x597D, 0x4E45, 0x6CA1, 0x804A, 0x4E86, 0xFF0C, 0x6700, 0x8FD1, 0x600E, 0x4E48, 0x6837,
     0xFF1F]"

definition DEFAULT_ACTIVE_2 :: jstring where
  "DEFAULT_ACTIVE_2 =
    [0x521A, 0x60F3, 0x5230, 0x4F60, 0xFF0C, 0x6700, 0x8FD1, 0x8FD8, 0x597D, 0x5417, 0xFF1F]"

definition DEFAULT_ACTIVE_3 :: jstring where
  "DEFAULT_ACTIVE_3 =
    [0x6709, 0x5565, 0x65B0, 0x9C9C, 0x4E8B, 0x513F, 0x4E0D, 0xFF1F]"

definition DEFAULT_ACTIVE_4 :: jstring where
  "DEFAULT_ACTIVE_4 =
    [0x521A, 0x624D, 0x770B, 0x5230, 0x4E2A, 0x6709, 0x8DA3, 0x7684, 0x4E8B, 0xFF0C, 0x60F3,
     0x8DDF, 0x4F60, 0x804A, 0x804A]"

definition naturalReplies :: "jstring list" where
  "naturalReplies = [NATURAL_REPLY_0, NATURAL_REPLY_1, NATURAL_REPLY_2, NATURAL_REPLY_3]"

definition defaultMessages :: "jstring list" where
  "defaultMessages =
     [DEFAULT_ACTIVE_0, DEFAULT_ACTIVE_1, DEFAULT_ACTIVE_2, DEFAULT_ACTIVE_3, DEFAULT_ACTIVE_4]"

definition defaultMessages_on_error :: "jstring list" where
  "defaultMessages_on_error = [DEFAULT_ACTIVE_0, DEFAULT_ACTIVE_1, DEFAULT_ACTIVE_2]"

definition USER_INACTIVE_THRESHOLD :: int where
  "USER_INACTIVE_THRESHOLD = 30 * 60 * 1000"

definition ACTIVE_MESSAGE_INTERVAL :: int where
  "ACTIVE_MESSAGE_INTERVAL = 2 * 60 * 60 * 1000"

definition system_message :: "jstring \<Rightarrow> chat_message" where
  "system_message c = \<lparr>role = js ''system'', content = c\<rparr>"

definition user_message :: "jstring \<Rightarrow> chat_message" where
  "user_message c = \<lparr>role = js ''user'', content = c\<rparr>"

section \<open>The model client (src/memory.js, \<^verbatim>\<open>chatWithLLM\<close>, lines 776--831)\<close>

text \<open>
  The endpoint is an oracle: what the \<open>k\<close>-th \<^verbatim>\<open>axios.post\<close> of a call does. It rejects with an
  error, or it answers, and \<^verbatim>\<open>response.data?.choices?.[0]?.message?.content\<close> is a string or
  is missing. What a function does to the outside is the list of its effects, in order.
\<close>

datatype http_result =
    HttpError nat
  | HttpResponse "jstring option"

datatype effect =
    Post "chat_message list"
  | Sleep nat
  | SendMessage id_value jstring
  | SendChatAction id_value
  | ScheduleExtract user_id
  | ScheduleMood user_id jstring jstring

definition maxRetries :: nat where
  "maxRetries = 3"

text \<open>
  The loop \<^verbatim>\<open>for (let attempt = 1; attempt <= maxRetries; attempt++)\<close> with its variable
  \<^verbatim>\<open>lastError\<close>. An empty content on the last attempt throws inside the \<^verbatim>\<open>try\<close>, so the
  \<^verbatim>\<open>catch\<close> records and rethrows it. After the loop comes \<^verbatim>\<open>throw lastError\<close>.
\<close>

function chat_loop ::
  "(nat \<Rightarrow> http_result) \<Rightarrow> chat_message list \<Rightarrow> nat \<Rightarrow> error option \<Rightarrow> effect list
   \<Rightarrow> (error option + jstring) \<times> effect list" where
  "chat_loop transport msgs attempt lastError tr =
     (if attempt \<le> maxRetries then
        (case transport attempt of
           HttpResponse c \<Rightarrow>
             (case truthy c of
                None \<Rightarrow>
                  if attempt = maxRetries then (Inl (Some EmptyContent), tr @ [Post msgs])
                  else chat_loop transport msgs (attempt + 1) lastError
                         (tr @ [Post msgs, Sleep (1000 * attempt)])
              | Some text \<Rightarrow> (Inr text, tr @ [Post msgs]))
         | HttpError e \<Rightarrow>
             if attempt = maxRetries then (Inl (Some (TransportError e)), tr @ [Post msgs])
             else chat_loop transport msgs (attempt + 1) (Some (TransportError e))
                    (tr @ [Post msgs, Sleep (1000 * attempt)]))
      else (Inl lastError, tr))"
  by pat_completeness auto
termination
  by (relation "measure (\<lambda>(transport, msgs, attempt, lastError, tr). Suc maxRetries - attempt)") auto

declare chat_loop.simps [simp del]

text \<open>What is thrown is an error object, or \<^verbatim>\<open>undefined\<close> when \<^verbatim>\<open>lastError\<close> was never set.\<close>

definition chatWithLLM ::
  "(nat \<Rightarrow> http_result) \<Rightarrow> chat_message list \<Rightarrow> (error option + jstring) \<times> effect list" where
  "chatWithLLM transport msgs =
     (if msgs = [] then (Inl (Some InvalidMessagesArray), [])
      else chat_loop transport msgs 1 None [])"

definition attempts :: "effect list \<Rightarrow> nat" where
  "attempts tr = length (filter (\<lambda>e. case e of Post m \<Rightarrow> True | _ \<Rightarrow> False) tr)"

text \<open>An attempt fails when the request is rejected or the content is missing or empty.\<close>

definition attempt_failed :: "http_result \<Rightarrow> bool" where
  "attempt_failed r = (case r of HttpError e \<Rightarrow> True | HttpResponse c \<Rightarrow> truthy c = None)"

definition attempt_error :: "http_result \<Rightarrow> error" where
  "attempt_error r = (case r of HttpError e \<Rightarrow> TransportError e | HttpResponse c \<Rightarrow> EmptyContent)"

section \<open>The collaborators that are not in the repository's sources\<close>

text \<open>
  The module \<^verbatim>\<open>persona.js\<close> is imported by the bot and is not among the sources (the spec
  calls it the static persona text, an external collaborator). Its four exports are
  parameters here: nothing is assumed of them but that they return. \<open>buildSystemPrompt\<close>
  takes an object whose fields may all be missing; \<open>getCurrentMood\<close> derives a mood from the
  time of day, which it reads itself in the source and is given here.
\<close>

record prompt_args =
  userName :: "jstring option"
  importantFacts :: "jstring list option"
  chatCount :: "nat option"
  mood :: "jstring option"

definition no_prompt_args :: prompt_args where
  "no_prompt_args = \<lparr>userName = None, importantFacts = None, chatCount = None, mood = None\<rparr>"

record persona =
  buildSystemPrompt :: "prompt_args \<Rightarrow> jstring"
  getCurrentMood :: "timestamp \<Rightarrow> jstring"
  EXTRACTION_PROMPT :: jstring
  MOOD_ANALYSIS_PROMPT :: jstring

text \<open>
  The rest of the environment of a handler: the configured window \<^verbatim>\<open>MEMORY_LIMIT\<close>, the
  endpoint as it answers the call made for a user, whether a call of the Telegram client
  succeeds, the clock readings of one handler run in the order they are taken, the clock
  reading of the sweep when it reaches a user, the random number, and which reading methods
  of the store throw (a storage failure).
\<close>

datatype store_read = ReadRecent | ReadImportantFacts | ReadChatCount | ReadRecentMood | ReadUserIds

record env =
  persona_of :: persona
  MEMORY_LIMIT :: int
  transport :: "user_id \<Rightarrow> nat \<Rightarrow> http_result"
  bot_ok :: "effect \<Rightarrow> bool"
  clock :: "nat \<Rightarrow> timestamp"
  sweep_now :: "user_id \<Rightarrow> timestamp"
  random :: nat
  read_fault :: "store_read \<Rightarrow> bool"

section \<open>The in-process session state and the store (src/memory.js, lines 736--746)\<close>

record world =
  store :: db
  lastMessageTime :: "id_value \<rightharpoonup> timestamp"
  userNames :: "id_value \<rightharpoonup> jstring"
  lastInteractionTime :: "id_value \<rightharpoonup> timestamp"
  lastActiveMessageTime :: "id_value \<rightharpoonup> timestamp"

text \<open>\<^verbatim>\<open>map.get(userId) || 0\<close>\<close>

definition get_or_0 :: "(id_value \<rightharpoonup> timestamp) \<Rightarrow> id_value \<Rightarrow> timestamp" where
  "get_or_0 m k = (case m k of None \<Rightarrow> 0 | Some t \<Rightarrow> t)"

text \<open>A reading method of the store as a caller sees it: its value, or the error it throws.\<close>

definition read_store :: "env \<Rightarrow> store_read \<Rightarrow> 'a \<Rightarrow> error + 'a" where
  "read_store E r v = (if read_fault E r then Inl StorageError else Inr v)"

section \<open>Fact extraction (src/memory.js, \<^verbatim>\<open>extractImportantFacts\<close>, lines 836--884)\<close>

definition format_turn :: "chat_message \<Rightarrow> jstring" where
  "format_turn m = (if role m = js ''user'' then SPEAKER_OTHER else SPEAKER_ROSE) @ js '': '' @ content m"

definition extraction_messages :: "persona \<Rightarrow> chat_message list \<Rightarrow> chat_message list" where
  "extraction_messages P lastMessages =
     (let conversation = join [newline] (map format_turn lastMessages);
          prompt = EXTRACTION_PROMPT P @ CONVERSATION_HEADER @ conversation @ REMEMBER_FOOTER
      in [system_message (EXTRACTION_PROMPT P), user_message prompt])"

definition parse_facts :: "jstring \<Rightarrow> jstring list" where
  "parse_facts result =
     filter (\<lambda>line. length line > 3 \<and> length line < 100 \<and> line \<noteq> [])
       (map (\<lambda>line. js_trim (strip_bullet line)) (split_on newline result))"

text \<open>\<^verbatim>\<open>for (const fact of facts) await memory.addImportantFact(userId, fact)\<close>; the \<open>k\<close>-th call
  reads the clock \<open>clock k\<close>. A call that throws ends the loop.\<close>

fun record_facts :: "db \<Rightarrow> user_id \<Rightarrow> jstring list \<Rightarrow> (nat \<Rightarrow> timestamp) \<Rightarrow> nat \<Rightarrow> error option \<times> db" where
  "record_facts s u [] clk k = (None, s)"
| "record_facts s u (f # fs) clk k =
     (case addImportantFact s u f (clk k) of
        Inl e \<Rightarrow> (Some e, s)
      | Inr s' \<Rightarrow> record_facts s' u fs clk (Suc k))"

text \<open>The result: the facts returned, the store, and the effects.\<close>

definition extractImportantFacts ::
  "env \<Rightarrow> db \<Rightarrow> user_id \<Rightarrow> jstring list \<times> db \<times> effect list" where
  "extractImportantFacts E s u =
     (if u = 0 then ([], s, [])
      else
        (let lastMessages = slice_last 20 (getAll s u) in
         if length lastMessages = 0 then ([], s, [])
         else if length lastMessages < 2 then ([], s, [])
         else
           (case chatWithLLM (transport E u) (extraction_messages (persona_of E) lastMessages) of
              (Inl e, tr) \<Rightarrow> ([], s, tr)
            | (Inr result, tr) \<Rightarrow>
                if result = [] \<or> result = NOTHING_SIGNAL then ([], s, tr)
                else
                  (let facts = parse_facts result in
                   case record_facts s u facts (clock E) 0 of
                     (Some e, s') \<Rightarrow> ([], s', tr)
                   | (None, s') \<Rightarrow> (facts, s', tr)))))"

section \<open>Context assembly (src/memory.js, lines 919--987)\<close>

definition getTimeGap :: "world \<Rightarrow> timestamp \<Rightarrow> user_id \<Rightarrow> jstring option" where
  "getTimeGap w now u =
     (case lastMessageTime w (IdNumber u) of
        None \<Rightarrow> None
      | Some lastTime \<Rightarrow>
          if lastTime = 0 then None
          else
            (let gap = now - lastTime;
                 hours = gap div (1000 * 60 * 60)
             in if hours \<ge> 6 then Some (GAP_LONG_PREFIX @ show_nat (nat hours) @ GAP_LONG_SUFFIX)
                else if hours \<ge> 1 then Some GAP_SHORT
                else None))"

text \<open>The body of the \<^verbatim>\<open>try\<close>: the first reading method that throws ends it.
  \<^verbatim>\<open>getRecent\<close> catches its own storage failure and returns no rows.\<close>

definition assemble :: "env \<Rightarrow> world \<Rightarrow> timestamp \<Rightarrow> user_id \<Rightarrow> jstring \<Rightarrow> error + chat_message list" where
  "assemble E w now u userMessage =
     (let name = js_or (userNames w (IdNumber u)) None;
          recentMemories =
            (if read_fault E ReadRecent then [] else getRecent (store w) u (Some (MEMORY_LIMIT E)))
      in case read_store E ReadImportantFacts (getImportantFacts (store w) u) of
           Inl e \<Rightarrow> Inl e
         | Inr facts \<Rightarrow>
        (case read_store E ReadChatCount (getChatCount (store w) u) of
           Inl e \<Rightarrow> Inl e
         | Inr count \<Rightarrow>
        (let timeHint = getTimeGap w now u;
             timeMood = getCurrentMood (persona_of E) now
         in case read_store E ReadRecentMood (getRecentMood (store w) u) of
              Inl e \<Rightarrow> Inl e
            | Inr recentMood \<Rightarrow>
           (let moodHint =
                  (case truthy recentMood of
                     None \<Rightarrow> timeMood
                   | Some m \<Rightarrow> timeMood @ LAST_MOOD_SEPARATOR @ m);
                systemPrompt =
                  buildSystemPrompt (persona_of E)
                    \<lparr>userName = name, importantFacts = Some facts, chatCount = Some count,
                      mood = Some moodHint\<rparr>
            in Inr ([system_message systemPrompt] @ recentMemories
                    @ (case timeHint of
                         None \<Rightarrow> []
                       | Some h \<Rightarrow> [system_message (SYSTEM_HINT_PREFIX @ h @ js '']'')])
                    @ [user_message userMessage])))))"

definition buildMessages :: "env \<Rightarrow> world \<Rightarrow> timestamp \<Rightarrow> user_id \<Rightarrow> jstring \<Rightarrow> error + chat_message list" where
  "buildMessages E w now u userMessage =
     (if u = 0 \<or> userMessage = [] then Inl BuildMessagesMissingParameters
      else
        (case assemble E w now u userMessage of
           Inr msgs \<Rightarrow> Inr msgs
         | Inl e \<Rightarrow>
             Inr [system_message (buildSystemPrompt (persona_of E) no_prompt_args),
                  user_message userMessage]))"

section \<open>Turn handling (src/memory.js, \<^verbatim>\<open>handleMessage\<close>, lines 992--1097)\<close>

text \<open>
  What the handler reads of an update: \<^verbatim>\<open>msg.chat.id\<close> (\<open>None\<close> when \<^verbatim>\<open>msg.chat\<close> is missing),
  \<^verbatim>\<open>msg.text\<close>, \<^verbatim>\<open>msg.from?.username\<close> and \<^verbatim>\<open>msg.from?.first_name\<close>.
\<close>

record telegram_message =
  tg_chat :: "user_id option"
  tg_text :: "jstring option"
  tg_username :: "jstring option"
  tg_first_name :: "jstring option"

definition MAX_MESSAGE_LENGTH :: nat where
  "MAX_MESSAGE_LENGTH = 1000"

definition TELEGRAM_LIMIT :: nat where
  "TELEGRAM_LIMIT = 4096"

definition startsWith_slash :: "jstring \<Rightarrow> bool" where
  "startsWith_slash s = (case s of [] \<Rightarrow> False | c # cs \<Rightarrow> c = 0x2F)"

text \<open>The outer \<^verbatim>\<open>catch\<close>: one of the natural replies is sent; a failure of that is logged.\<close>

definition handle_failure :: "env \<Rightarrow> world \<Rightarrow> user_id \<Rightarrow> effect list \<Rightarrow> world \<times> effect list" where
  "handle_failure E w u tr = (w, tr @ [SendMessage (IdNumber u) (pick naturalReplies (random E))])"

text \<open>
  The steps after the reply was sent: both messages are stored, the two time maps are
  set, the extraction is scheduled when the count is a multiple of 10, the mood analysis
  always. The clock is read for each \<^verbatim>\<open>add\<close> and for \<^verbatim>\<open>now\<close>.
\<close>

definition after_reply ::
  "env \<Rightarrow> world \<Rightarrow> user_id \<Rightarrow> jstring \<Rightarrow> jstring \<Rightarrow> effect list \<Rightarrow> world \<times> effect list" where
  "after_reply E w u userMessage reply tr =
     (case add (store w) u (js ''user'') userMessage (clock E 1) of
        Inl e \<Rightarrow> handle_failure E w u tr
      | Inr s1 \<Rightarrow>
          (case add s1 u (js ''assistant'') reply (clock E 2) of
             Inl e \<Rightarrow> handle_failure E (w\<lparr>store := s1\<rparr>) u tr
           | Inr s2 \<Rightarrow>
               (let now = clock E 3;
                    w' = w\<lparr>store := s2,
                           lastMessageTime := (lastMessageTime w)(IdNumber u \<mapsto> now),
                           lastInteractionTime := (lastInteractionTime w)(IdNumber u \<mapsto> now)\<rparr>
                in (w', tr @ (if getChatCount s2 u mod 10 = 0 then [ScheduleExtract u] else [])
                           @ [ScheduleMood u userMessage reply]))))"

text \<open>\<^verbatim>\<open>if (userName && !userNames.has(userId)) userNames.set(userId, userName)\<close>\<close>

definition save_user_name :: "world \<Rightarrow> user_id \<Rightarrow> jstring option \<Rightarrow> world" where
  "save_user_name w u name =
     (case name of
        None \<Rightarrow> w
      | Some n \<Rightarrow>
          if userNames w (IdNumber u) = None
          then w\<lparr>userNames := (userNames w)(IdNumber u \<mapsto> n)\<rparr>
          else w)"

text \<open>
  The handler. \<^verbatim>\<open>reply\<close> is declared \<^verbatim>\<open>const\<close>, so the assignment that would shorten a reply
  of more than 4096 code units throws a \<^verbatim>\<open>TypeError\<close>, which the outer \<^verbatim>\<open>catch\<close> handles.
\<close>

definition handleMessage :: "env \<Rightarrow> world \<Rightarrow> telegram_message \<Rightarrow> world \<times> effect list" where
  "handleMessage E w msg =
     (case (tg_chat msg, truthy (tg_text msg)) of
        (Some u, Some userMessage) \<Rightarrow>
          if u = 0 then (w, [])
          else if length userMessage > MAX_MESSAGE_LENGTH then
            (w, [SendMessage (IdNumber u) TOO_LONG_NOTICE])
          else
            (let name = js_or (tg_username msg) (js_or (tg_first_name msg) None);
                 w1 = save_user_name w u name
             in if startsWith_slash userMessage then (w1, [])
                else if \<not> bot_ok E (SendChatAction (IdNumber u)) then
                  handle_failure E w1 u [SendChatAction (IdNumber u)]
                else
                  (case buildMessages E w1 (clock E 0) u userMessage of
                     Inl e \<Rightarrow> handle_failure E w1 u [SendChatAction (IdNumber u)]
                   | Inr msgs \<Rightarrow>
                       (case chatWithLLM (transport E u) msgs of
                          (Inl e, tr) \<Rightarrow> handle_failure E w1 u (SendChatAction (IdNumber u) # tr)
                        | (Inr reply, tr) \<Rightarrow>
                            if reply = [] \<or> length (js_trim reply) = 0 then
                              (if bot_ok E (SendMessage (IdNumber u) HMM_REPLY)
                               then (w1, SendChatAction (IdNumber u) # tr
                                         @ [SendMessage (IdNumber u) HMM_REPLY])
                               else handle_failure E w1 u
                                      (SendChatAction (IdNumber u) # tr
                                       @ [SendMessage (IdNumber u) HMM_REPLY]))
                            else if length reply > TELEGRAM_LIMIT then
                              handle_failure E w1 u (SendChatAction (IdNumber u) # tr)
                            else if \<not> bot_ok E (SendMessage (IdNumber u) reply) then
                              handle_failure E w1 u
                                (SendChatAction (IdNumber u) # tr @ [SendMessage (IdNumber u) reply])
                            else
                              after_reply E w1 u userMessage reply
                                (SendChatAction (IdNumber u) # tr
                                 @ [SendMessage (IdNumber u) reply]))))
      | _ \<Rightarrow> (w, []))"

section \<open>The proactive scheduler (src/memory.js, lines 1102--1190)\<close>

text \<open>
  The scheduler works on the ids that \<^verbatim>\<open>getUserIds\<close> returns and passes each of them on as it
  is: to the \<^verbatim>\<open>Map\<close>s, to the reading methods of the store (which find the rows of the chat)
  and to the Telegram client.
\<close>

definition active_prompt :: "env \<Rightarrow> jstring \<Rightarrow> jstring list \<Rightarrow> jstring option \<Rightarrow> nat \<Rightarrow> timestamp \<Rightarrow> jstring" where
  "active_prompt E name facts recentMood count now =
     ACTIVE_PROMPT_HEAD @ name @ ACTIVE_PROMPT_TIME @ getCurrentMood (persona_of E) now
     @ (if length facts > 0 then ACTIVE_PROMPT_FACTS @ join (js '', '') (take 3 facts) else [])
     @ (case truthy recentMood of None \<Rightarrow> [] | Some m \<Rightarrow> ACTIVE_PROMPT_MOOD @ m)
     @ (if count > 0 then ACTIVE_PROMPT_COUNT_PREFIX @ show_nat count @ ACTIVE_PROMPT_COUNT_SUFFIX
        else [])
     @ ACTIVE_PROMPT_TAIL"

text \<open>\<^verbatim>\<open>generateActiveMessage\<close> always returns a text: the trimmed answer of the model, or one
  of the hand-authored messages when the answer is blank or anything in the \<^verbatim>\<open>try\<close> throws.\<close>

definition generateActiveMessage :: "env \<Rightarrow> world \<Rightarrow> id_value \<Rightarrow> jstring \<times> effect list" where
  "generateActiveMessage E w k =
     (let u = chat_of k;
          name = (case js_or (userNames w k) None of None \<Rightarrow> FRIEND | Some n \<Rightarrow> n);
          fallback = pick defaultMessages_on_error (random E)
      in case read_store E ReadImportantFacts (getImportantFacts (store w) u) of
           Inl e \<Rightarrow> (fallback, [])
         | Inr facts \<Rightarrow>
        (case read_store E ReadRecentMood (getRecentMood (store w) u) of
           Inl e \<Rightarrow> (fallback, [])
         | Inr recentMood \<Rightarrow>
        (case read_store E ReadChatCount (getChatCount (store w) u) of
           Inl e \<Rightarrow> (fallback, [])
         | Inr count \<Rightarrow>
        (case chatWithLLM (transport E u)
                [system_message
                   (buildSystemPrompt (persona_of E)
                      \<lparr>userName = Some name, importantFacts = Some facts, chatCount = Some count,
                        mood = None\<rparr>),
                 user_message (active_prompt E name facts recentMood count (sweep_now E u))] of
           (Inl e, tr) \<Rightarrow> (fallback, tr)
         | (Inr activeMessage, tr) \<Rightarrow>
             if activeMessage \<noteq> [] \<and> length (js_trim activeMessage) > 0
             then (js_trim activeMessage, tr)
             else (pick defaultMessages (random E), tr)))))"

text \<open>The two gates of the sweep, for one id at the clock reading \<open>now\<close>:
  \<^verbatim>\<open>lastInteractionTime.get(userId) || 0\<close> and \<^verbatim>\<open>lastActiveMessageTime.get(userId) || 0\<close>.\<close>

definition gates_open :: "world \<Rightarrow> timestamp \<Rightarrow> id_value \<Rightarrow> bool" where
  "gates_open w now k =
     (now - get_or_0 (lastInteractionTime w) k > USER_INACTIVE_THRESHOLD
      \<and> now - get_or_0 (lastActiveMessageTime w) k > ACTIVE_MESSAGE_INTERVAL)"

text \<open>One turn of the loop \<^verbatim>\<open>for (const userId of userIds)\<close>. A send that fails is caught:
  the time stamp stays.\<close>

definition sweep_user :: "env \<Rightarrow> world \<times> effect list \<Rightarrow> id_value \<Rightarrow> world \<times> effect list" where
  "sweep_user E acc k =
     (case acc of (w, tr) \<Rightarrow>
        (let now = sweep_now E (chat_of k) in
         if gates_open w now k then
           (case generateActiveMessage E w k of (activeMessage, tr1) \<Rightarrow>
              if bot_ok E (SendMessage k activeMessage)
              then (w\<lparr>lastActiveMessageTime := (lastActiveMessageTime w)(k \<mapsto> now)\<rparr>,
                    tr @ tr1 @ [SendMessage k activeMessage])
              else (w, tr @ tr1 @ [SendMessage k activeMessage]))
         else (w, tr)))"

definition initiateActiveConversation :: "env \<Rightarrow> world \<Rightarrow> world \<times> effect list" where
  "initiateActiveConversation E w =
     (if read_fault E ReadUserIds then (w, [])
      else foldl (sweep_user E) (w, []) (getUserIds (store w)))"

text \<open>The messages a list of effects hands to the Telegram client under an id.\<close>

definition sent_to :: "id_value \<Rightarrow> effect list \<Rightarrow> jstring list" where
  "sent_to k tr =
     concat (map (\<lambda>e. case e of SendMessage v m \<Rightarrow> if v = k then [m] else [] | _ \<Rightarrow> []) tr)"

text \<open>What one turn of the loop leaves for its id: the time of the last proactive message,
  and the messages handed to the Telegram client.\<close>

definition sweep_stamp :: "env \<Rightarrow> world \<Rightarrow> id_value \<Rightarrow> timestamp option" where
  "sweep_stamp E w k =
     (if gates_open w (sweep_now E (chat_of k)) k
         \<and> bot_ok E (SendMessage k (fst (generateActiveMessage E w k)))
      then Some (sweep_now E (chat_of k)) else lastActiveMessageTime w k)"

definition sweep_sent :: "env \<Rightarrow> world \<Rightarrow> id_value \<Rightarrow> jstring list" where
  "sweep_sent E w k =
     (if gates_open w (sweep_now E (chat_of k)) k then [fst (generateActiveMessage E w k)] else [])"

text \<open>The background tasks among the effects, and the effects of the model client.\<close>

definition is_task :: "effect \<Rightarrow> bool" where
  "is_task e = (case e of ScheduleExtract v \<Rightarrow> True | ScheduleMood v a b \<Rightarrow> True | _ \<Rightarrow> False)"

definition tasks :: "effect list \<Rightarrow> effect list" where
  "tasks tr = filter is_task tr"

definition is_request :: "effect \<Rightarrow> bool" where
  "is_request e = (case e of Post ms \<Rightarrow> True | Sleep n \<Rightarrow> True | _ \<Rightarrow> False)"

section \<open>Example inputs\<close>

definition two_user_store :: db where
  "two_user_store =
     run_ops [OpAdd 1 (js ''user'') (js ''a'') 10, OpAdd 2 (js ''user'') (js ''b'') 20] empty_db"

definition cat_facts :: "store_op list" where
  "cat_facts =
     [OpAddImportantFact 7 (js ''likes cats'') 100, OpAddImportantFact 7 (js ''name is Ming'') 150,
      OpAddImportantFact 7 (js ''likes cats'') 200]"

definition calm_moods :: "store_op list" where
  "calm_moods = [OpAddMood 7 (js ''tired'') 100, OpAddMood 7 (js ''calm'') 100]"
definition flaky_transport :: "nat \<Rightarrow> http_result" where
  "flaky_transport k = (if k = 3 then HttpResponse (Some (js ''ok'')) else HttpError k)"

definition failing_transport :: "nat \<Rightarrow> http_result" where
  "failing_transport k = HttpError k"

definition empty_transport :: "nat \<Rightarrow> http_result" where
  "empty_transport k = (if k = 2 then HttpResponse (Some []) else HttpResponse None)"

definition one_message :: "chat_message list" where
  "one_message = [user_message (js ''hi'')]"

definition minutes :: "int \<Rightarrow> int" where
  "minutes n = n * 60 * 1000"

definition example_persona :: persona where
  "example_persona =
     \<lparr>buildSystemPrompt = (\<lambda>args. js ''You are Rose.''),
      getCurrentMood = (\<lambda>now. js ''relaxed''),
      EXTRACTION_PROMPT = js ''Extract what is worth remembering.'',
      MOOD_ANALYSIS_PROMPT = js ''Name the mood.''\<rparr>"

definition example_env :: env where
  "example_env =
     \<lparr>persona_of = example_persona,
      MEMORY_LIMIT = 20,
      transport = (\<lambda>u k. HttpResponse (Some (js ''How are you?''))),
      bot_ok = (\<lambda>e. True),
      clock = (\<lambda>k. minutes 600 + int k),
      sweep_now = (\<lambda>u. minutes 600),
      random = 0,
      read_fault = (\<lambda>r. False)\<rparr>"

text \<open>One known user, who wrote 31 minutes before the sweep of minute 600. The last
  proactive message went out 3 hours before the sweep in the first world, 30 minutes before
  it in the second. The handler keeps its times under the number of the chat, the sweep
  under the text it reads from the store.\<close>

definition idle_world :: world where
  "idle_world =
     \<lparr>store = add_many 2 empty_db 7 (minutes 500),
      lastMessageTime = [IdNumber 7 \<mapsto> minutes 569],
      userNames = Map.empty,
      lastInteractionTime = [IdNumber 7 \<mapsto> minutes 569],
      lastActiveMessageTime = [IdText 7 \<mapsto> minutes 420]\<rparr>"

definition recently_contacted_world :: world where
  "recently_contacted_world =
     idle_world\<lparr>lastActiveMessageTime := [IdText 7 \<mapsto> minutes 570]\<rparr>"

text \<open>A bot that was just started, and the same environment five minutes before the sweep:
  the user of chat 7 writes at minute 595.\<close>

definition fresh_world :: world where
  "fresh_world =
     \<lparr>store = empty_db, lastMessageTime = Map.empty, userNames = Map.empty,
      lastInteractionTime = Map.empty, lastActiveMessageTime = Map.empty\<rparr>"

definition earlier_env :: env where
  "earlier_env = example_env\<lparr>clock := (\<lambda>k. minutes 595 + int k)\<rparr>"

definition oversized_message :: telegram_message where
  "oversized_message =
     \<lparr>tg_chat = Some 7, tg_text = Some (replicate 1001 0x61), tg_username = Some (js ''ming''),
      tg_first_name = None\<rparr>"

text \<open>A user with 8 stored messages who sends one more, and a model that answers at once.\<close>

definition eight_world :: world where
  "eight_world = idle_world\<lparr>store := add_many 8 empty_db 7 (minutes 500)\<rparr>"

definition hello_message :: telegram_message where
  "hello_message =
     \<lparr>tg_chat = Some 7, tg_text = Some (js ''hello''), tg_username = Some (js ''ming''),
      tg_first_name = None\<rparr>"

text \<open>The world after the user of chat 7 wrote to the bot just started.\<close>

definition chatting_world :: world where
  "chatting_world = fst (handleMessage earlier_env fresh_world hello_message)"

text \<open>An answer of the extraction with a bulleted fact, a line that is too short and a
  line with no bullet; and the answer that signals nothing to remember.\<close>

definition listing_answer :: jstring where
  "listing_answer =
     js ''- likes cats'' @ [newline] @ js ''* ok'' @ [newline] @ js ''name is Ming ''"

definition listing_env :: env where
  "listing_env = example_env\<lparr>transport := (\<lambda>u k. HttpResponse (Some listing_answer))\<rparr>"

definition nothing_env :: env where
  "nothing_env = example_env\<lparr>transport := (\<lambda>u k. HttpResponse (Some NOTHING_SIGNAL))\<rparr>"




text \<open>The request of the extraction for a user whose stored messages are two times ``hi''.\<close>

definition hi_request :: "chat_message list" where
  "hi_request =
     [system_message (js ''Extract what is worth remembering.''),
      user_message
        (js ''Extract what is worth remembering.'' @ CONVERSATION_HEADER
         @ SPEAKER_OTHER @ js '': hi'' @ [newline] @ SPEAKER_OTHER @ js '': hi''
         @ REMEMBER_FOOTER)]"

text \<open>Two moods, the second written at an earlier clock reading than the first.\<close>

definition late_clock_moods :: "store_op list" where
  "late_clock_moods = [OpAddMood 7 (js ''calm'') 200, OpAddMood 7 (js ''happy'') 100]"

section \<open>Properties of the store\<close>

subsection \<open>Clearing one user\<close>

lemma user_messages_clear: "v \<noteq> u \<Longrightarrow> user_messages (clear s u) v = user_messages s v"
  by (simp add: user_messages_def clear_def clearMoods_def clearMemories_def clearMessages_def)
     (rule filter_cong, auto)

lemma user_memories_clear: "v \<noteq> u \<Longrightarrow> user_memories (clear s u) v = user_memories s v"
  by (simp add: user_memories_def clear_def clearMoods_def clearMemories_def clearMessages_def)
     (rule filter_cong, auto)

lemma user_moods_clear: "v \<noteq> u \<Longrightarrow> user_moods (clear s u) v = user_moods s v"
  by (simp add: user_moods_def clear_def clearMoods_def clearMemories_def clearMessages_def)
     (rule filter_cong, auto)

text \<open>
  C9. Clearing the user \<open>u\<close> leaves every other user \<open>v\<close> as it was: the rows of \<open>v\<close> in the
  three tables, in their order, and therefore what every reading method returns for \<open>v\<close>.
\<close>

theorem clear_leaves_other_users:
  assumes "v \<noteq> u"
  shows "user_messages (clear s u) v = user_messages s v
       \<and> user_memories (clear s u) v = user_memories s v
       \<and> user_moods (clear s u) v = user_moods s v
       \<and> getRecent (clear s u) v limit = getRecent s v limit
       \<and> getAll (clear s u) v = getAll s v
       \<and> getChatCount (clear s u) v = getChatCount s v
       \<and> getImportantFacts (clear s u) v = getImportantFacts s v
       \<and> getRecentMood (clear s u) v = getRecentMood s v"
  using assms
  by (simp add: user_messages_clear user_memories_clear user_moods_clear getRecent_def getAll_def
      getChatCount_def getImportantFacts_def getRecentMood_def getRecentMessages_def
      getAllMessages_def getMemories_def getMood_def)

subsection \<open>Reading the history\<close>

lemma getRecent_nonneg:
  assumes "0 \<le> n"
  shows "getRecent s u (Some n) =
     map project_message (slice_last (nat (min n 50)) (order_asc msg_created (user_messages s u)))"
  using assms
  by (simp add: getRecent_def getRecentMessages_def sql_limit_def order_desc_def order_asc_def
      slice_last_def rev_map take_rev min_def)

lemma getRecent_negative:
  assumes "n < 0"
  shows "getRecent s u (Some n) = getAllMessages s u"
  using assms
  by (simp add: getRecent_def getRecentMessages_def getAllMessages_def sql_limit_def
      order_desc_def order_asc_def rev_map min_def)

lemma getAll_rows:
  "getAll s u = map project_message (slice_last 100 (order_asc msg_created (user_messages s u)))"
  by (simp add: getAll_def getAllMessages_def slice_last_def drop_map)

lemma suffix_slice_last: "k \<le> m \<Longrightarrow> suffix (slice_last k xs) (slice_last m xs)"
proof -
  assume km: "k \<le> m"
  have "(length xs - k) - (length xs - m) + (length xs - m) = length xs - k"
    using km by arith
  then have "slice_last k xs = drop ((length xs - k) - (length xs - m)) (slice_last m xs)"
    by (simp add: slice_last_def)
  then show ?thesis by (metis suffix_drop)
qed

text \<open>
  For a limit that is not negative \<^verbatim>\<open>getRecent\<close> does what is asked of it: at most
  \<open>min n 50\<close> messages, oldest first, a suffix of what \<^verbatim>\<open>getAll\<close> returns.
\<close>

lemma getRecent_nonneg_limit:
  assumes "0 \<le> n"
  shows "length (getRecent s u (Some n)) \<le> nat (min n 50)
       \<and> suffix (getRecent s u (Some n)) (getAll s u)
       \<and> (\<exists>rows. getRecent s u (Some n) = map project_message rows
                 \<and> sorted (map msg_created rows))"
proof -
  let ?S = "order_asc msg_created (user_messages s u)"
  have 1: "length (getRecent s u (Some n)) \<le> nat (min n 50)"
    using assms by (simp add: getRecent_nonneg slice_last_def)
  have "nat (min n 50) \<le> 100" by simp
  then have 2: "suffix (getRecent s u (Some n)) (getAll s u)"
    using assms by (simp only: getRecent_nonneg getAll_rows map_mono_suffix suffix_slice_last)
  have "sorted (map msg_created ?S)" by (simp add: order_asc_def)
  then have "sorted (map msg_created (slice_last (nat (min n 50)) ?S))"
    by (simp add: slice_last_def sorted_wrt_drop drop_map[symmetric])
  with 1 2 show ?thesis using getRecent_nonneg[OF assms] by blast
qed

lemma getChatCount_add:
  "u \<noteq> 0 \<Longrightarrow> r \<noteq> [] \<Longrightarrow> getChatCount (keep_on_error s (add s u r c t)) u = Suc (getChatCount s u)"
  by (simp add: keep_on_error_def add_def getChatCount_def user_messages_def insertMessage_def)

lemma js_nonempty: "xs \<noteq> [] \<Longrightarrow> js xs \<noteq> []"
  by (simp add: js_def)

lemma getChatCount_add_many:
  "u \<noteq> 0 \<Longrightarrow> getChatCount (add_many k s u t) u = getChatCount s u + k"
  by (induction k arbitrary: s t) (simp_all add: getChatCount_add js_nonempty)

lemma length_getRecent_negative:
  "n < 0 \<Longrightarrow> length (getRecent s u (Some n)) = getChatCount s u"
  by (simp add: getRecent_negative getAllMessages_def order_asc_def getChatCount_def)

lemma length_getAll: "length (getAll s u) = min 100 (getChatCount s u)"
  by (simp add: getAll_rows slice_last_def order_asc_def getChatCount_def)

text \<open>
  C1. The bound of 50 does not hold for a negative limit: \<^verbatim>\<open>Math.min(-1, 50)\<close> is \<open>-1\<close>, and
  \<^verbatim>\<open>LIMIT -1\<close> is no limit. For a user with 101 stored messages \<^verbatim>\<open>getRecent(userId, -1)\<close>
  returns all 101, which is more than 50 and is no suffix of the 100 that \<^verbatim>\<open>getAll\<close> returns.
\<close>

theorem getRecent_negative_limit_unbounded:
  "length (getRecent (add_many 101 empty_db 7 1000) 7 (Some (- 1))) = 101
   \<and> length (getAll (add_many 101 empty_db 7 1000) 7) = 100
   \<and> \<not> suffix (getRecent (add_many 101 empty_db 7 1000) 7 (Some (- 1)))
              (getAll (add_many 101 empty_db 7 1000) 7)"
proof -
  let ?s = "add_many 101 empty_db 7 1000"
  have c: "getChatCount ?s 7 = 101"
    by (simp add: getChatCount_add_many) (simp add: getChatCount_def user_messages_def empty_db_def)
  have r: "length (getRecent ?s 7 (Some (- 1))) = 101"
    by (simp add: length_getRecent_negative c)
  have a: "length (getAll ?s 7) = 100"
    by (simp add: length_getAll c)
  have "\<not> suffix (getRecent ?s 7 (Some (- 1))) (getAll ?s 7)"
  proof
    assume "suffix (getRecent ?s 7 (Some (- 1))) (getAll ?s 7)"
    then have "length (getRecent ?s 7 (Some (- 1))) \<le> length (getAll ?s 7)"
      by (rule suffix_length_le)
    with r a show False by simp
  qed
  with r a show ?thesis by simp
qed

theorem clear_leaves_other_users_witness:
  "(2::int) \<noteq> 1
   \<and> getChatCount two_user_store 2 = 1
   \<and> getChatCount (clear two_user_store 1) 1 = 0
   \<and> user_messages (clear two_user_store 1) 2 = user_messages two_user_store 2
   \<and> user_memories (clear two_user_store 1) 2 = user_memories two_user_store 2
   \<and> user_moods (clear two_user_store 1) 2 = user_moods two_user_store 2
   \<and> getRecent (clear two_user_store 1) 2 (Some 5) = getRecent two_user_store 2 (Some 5)
   \<and> getAll (clear two_user_store 1) 2 = getAll two_user_store 2
   \<and> getChatCount (clear two_user_store 1) 2 = getChatCount two_user_store 2
   \<and> getImportantFacts (clear two_user_store 1) 2 = getImportantFacts two_user_store 2
   \<and> getRecentMood (clear two_user_store 1) 2 = getRecentMood two_user_store 2"
proof -
  have "getChatCount two_user_store 2 = 1" "getChatCount (clear two_user_store 1) 1 = 0"
    by (simp_all add: two_user_store_def run_ops_def add_def keep_on_error_def insertMessage_def
        empty_db_def getChatCount_def user_messages_def js_def clear_def clearMessages_def
        clearMemories_def clearMoods_def)
  then show ?thesis
    using clear_leaves_other_users [of 2 1 two_user_store "Some 5"] by simp
qed

subsection \<open>Facts\<close>

lemma list_ex_pair:
  "list_ex (\<lambda>r. mem_user r = u \<and> mem_fact r = f) xs
    \<longleftrightarrow> (u, f) \<in> set (map (\<lambda>r. (mem_user r, mem_fact r)) xs)"
  by (induction xs) auto

lemma unique_facts_insertMemory: "unique_facts s \<Longrightarrow> unique_facts (insertMemory s u f now)"
  by (simp add: unique_facts_def insertMemory_def list_ex_pair del: set_map)

lemma valid_facts_insertMemory:
  "valid_facts s \<Longrightarrow> u \<noteq> 0 \<Longrightarrow> f \<noteq> [] \<Longrightarrow> valid_facts (insertMemory s u f now)"
  by (simp add: valid_facts_def insertMemory_def)

lemma memories_insertMessage [simp]: "memories (insertMessage s u r c now) = memories s"
  by (simp add: insertMessage_def)

lemma memories_insertMood [simp]: "memories (insertMood s u m now) = memories s"
  by (simp add: insertMood_def)

lemma memories_deleteOldMoods [simp]: "memories (deleteOldMoods s u) = memories s"
  by (simp add: deleteOldMoods_def Let_def)

lemma memories_clear: "memories (clear s u) = filter (\<lambda>r. mem_user r \<noteq> u) (memories s)"
  by (simp add: clear_def clearMoods_def clearMemories_def clearMessages_def)

lemma facts_inv_apply_op:
  assumes inv: "unique_facts s \<and> valid_facts s"
  shows "unique_facts (apply_op s x) \<and> valid_facts (apply_op s x)"
proof (cases x)
  case (OpAdd u r c now)
  with inv show ?thesis
    by (simp add: keep_on_error_def add_def unique_facts_def valid_facts_def)
next
  case (OpAddImportantFact u f now)
  with inv show ?thesis
    by (simp add: keep_on_error_def addImportantFact_def unique_facts_insertMemory
        valid_facts_insertMemory)
next
  case (OpAddMood u m now)
  with inv show ?thesis
    by (simp add: keep_on_error_def addMood_def unique_facts_def valid_facts_def)
next
  case (OpClear u)
  with inv show ?thesis
    by (simp add: unique_facts_def valid_facts_def memories_clear distinct_map_filter list_all_iff)
next
  case (OpGetImportantFacts u)
  with inv show ?thesis by simp
next
  case (OpGetRecentMood u)
  with inv show ?thesis by simp
qed

lemma facts_inv_run_ops:
  "unique_facts s \<and> valid_facts s \<Longrightarrow> unique_facts (run_ops ops s) \<and> valid_facts (run_ops ops s)"
proof (induction ops arbitrary: s)
  case Nil
  then show ?case by (simp add: run_ops_def)
next
  case (Cons x ops)
  from Cons.IH [OF facts_inv_apply_op [OF Cons.prems]] show ?case
    by (simp add: run_ops_def)
qed

lemma facts_inv_empty: "unique_facts empty_db \<and> valid_facts empty_db"
  by (simp add: unique_facts_def valid_facts_def empty_db_def)

lemma distinct_user_facts:
  "distinct (map (\<lambda>r. (mem_user r, mem_fact r)) xs)
   \<Longrightarrow> distinct (map mem_fact (filter (\<lambda>r. mem_user r = u) xs))"
  by (induction xs) (auto simp: image_iff)

lemma distinct_map_sort_key: "distinct (map g (sort_key k xs)) = distinct (map g xs)"
  by (simp add: distinct_map)

lemma distinct_getImportantFacts: "unique_facts s \<Longrightarrow> distinct (getImportantFacts s u)"
  by (simp add: getImportantFacts_def getMemories_def order_desc_sorted_def unique_facts_def
      user_memories_def rev_map[symmetric] distinct_map_sort_key distinct_user_facts)

lemma stored_fact_found:
  "f \<in> set (getImportantFacts s u) \<Longrightarrow> list_ex (\<lambda>r. mem_user r = u \<and> mem_fact r = f) (memories s)"
  by (auto simp: getImportantFacts_def getMemories_def order_desc_sorted_def user_memories_def list_ex_iff)

lemma stored_fact_valid:
  "valid_facts s \<Longrightarrow> f \<in> set (getImportantFacts s u) \<Longrightarrow> u \<noteq> 0 \<and> f \<noteq> []"
  by (auto simp: getImportantFacts_def getMemories_def order_desc_sorted_def user_memories_def
      valid_facts_def list_all_iff)

lemma addImportantFact_duplicate:
  assumes "valid_facts s" and "f \<in> set (getImportantFacts s u)"
  shows "addImportantFact s u f now = Inr s"
  using stored_fact_valid [OF assms] stored_fact_found [OF assms(2)]
  by (simp add: addImportantFact_def insertMemory_def)

text \<open>
  C4. After any sequence of store calls that starts from the empty database, the facts
  returned for a user hold no text twice; and adding a text that is already among them
  succeeds and changes neither the table of facts nor the list returned, order included.
\<close>

theorem facts_unique_and_idempotent:
  "distinct (getImportantFacts (run_ops ops empty_db) u)
   \<and> (f \<in> set (getImportantFacts (run_ops ops empty_db) u) \<longrightarrow>
        (\<exists>s'. addImportantFact (run_ops ops empty_db) u f now = Inr s'
            \<and> memories s' = memories (run_ops ops empty_db)
            \<and> getImportantFacts s' u = getImportantFacts (run_ops ops empty_db) u))"
  using facts_inv_run_ops [OF facts_inv_empty, of ops]
  by (auto simp: distinct_getImportantFacts addImportantFact_duplicate)

lemma cat_facts_result:
  "getImportantFacts (run_ops cat_facts empty_db) 7 = [js ''name is Ming'', js ''likes cats'']"
  by (simp add: cat_facts_def run_ops_def addImportantFact_def insertMemory_def keep_on_error_def
      empty_db_def getImportantFacts_def getMemories_def order_desc_sorted_def user_memories_def js_def)

theorem facts_unique_and_idempotent_witness:
  "js ''likes cats'' \<in> set (getImportantFacts (run_ops cat_facts empty_db) 7)
   \<and> getImportantFacts (run_ops cat_facts empty_db) 7 = [js ''name is Ming'', js ''likes cats'']
   \<and> distinct (getImportantFacts (run_ops cat_facts empty_db) 7)
   \<and> (\<exists>s'. addImportantFact (run_ops cat_facts empty_db) 7 (js ''likes cats'') 300 = Inr s'
          \<and> memories s' = memories (run_ops cat_facts empty_db)
          \<and> getImportantFacts s' 7 = getImportantFacts (run_ops cat_facts empty_db) 7)"
proof -
  have m: "js ''likes cats'' \<in> set (getImportantFacts (run_ops cat_facts empty_db) 7)"
    by (simp add: cat_facts_result)
  with facts_unique_and_idempotent [of cat_facts 7 "js ''likes cats''" 300] cat_facts_result
  show ?thesis by blast
qed

subsection \<open>Moods\<close>

lemma moods_insertMessage [simp]: "moods (insertMessage s u r c now) = moods s"
  and seq_moods_insertMessage [simp]: "seq_moods (insertMessage s u r c now) = seq_moods s"
  by (simp_all add: insertMessage_def)

lemma moods_insertMemory [simp]: "moods (insertMemory s u f now) = moods s"
  and seq_moods_insertMemory [simp]: "seq_moods (insertMemory s u f now) = seq_moods s"
  by (simp_all add: insertMemory_def)

lemma moods_clear: "moods (clear s u) = filter (\<lambda>r. mood_user r \<noteq> u) (moods s)"
  and seq_moods_clear [simp]: "seq_moods (clear s u) = seq_moods s"
  by (simp_all add: clear_def clearMoods_def clearMemories_def clearMessages_def)

lemma moods_deleteOldMoods:
  "moods (deleteOldMoods s u) =
     filter (\<lambda>r. mood_id r \<notin> mood_id ` set (drop 50 (order_desc mood_created (user_moods s u))))
       (moods s)"
  and seq_moods_deleteOldMoods [simp]: "seq_moods (deleteOldMoods s u) = seq_moods s"
  by (simp_all add: deleteOldMoods_def Let_def sql_limit_def)

lemma user_moods_deleteOldMoods:
  "user_moods (deleteOldMoods s u) u =
     filter (\<lambda>r. mood_id r \<notin> mood_id ` set (drop 50 (order_desc mood_created (user_moods s u))))
       (user_moods s u)"
  by (simp add: user_moods_def moods_deleteOldMoods conj_commute)

lemma user_moods_insertMood:
  "user_moods (insertMood s u m now) v =
     user_moods s v @ (if v = u then [\<lparr>mood_id = seq_moods s, mood_user = u, mood_text = m,
                                      mood_created = now\<rparr>] else [])"
  by (simp add: user_moods_def insertMood_def)

lemma mood_ids_ok_filter:
  "mood_ids_ok s \<Longrightarrow> moods s' = filter P (moods s) \<Longrightarrow> seq_moods s' = seq_moods s \<Longrightarrow> mood_ids_ok s'"
  by (simp add: mood_ids_ok_def distinct_map_filter list_all_iff)

lemma mood_ids_ok_insertMood: "mood_ids_ok s \<Longrightarrow> mood_ids_ok (insertMood s u m now)"
  by (auto simp: mood_ids_ok_def insertMood_def list_all_iff less_Suc_eq)

lemma mood_ids_ok_addMood: "mood_ids_ok s \<Longrightarrow> mood_ids_ok (deleteOldMoods (insertMood s u m now) u)"
  by (rule mood_ids_ok_filter [OF mood_ids_ok_insertMood moods_deleteOldMoods]) simp_all

lemma mood_ids_ok_apply_op:
  assumes inv: "mood_ids_ok s"
  shows "mood_ids_ok (apply_op s x)"
proof (cases x)
  case (OpAdd u r c now)
  with inv show ?thesis
    by (simp add: keep_on_error_def add_def mood_ids_ok_def)
next
  case (OpAddImportantFact u f now)
  with inv show ?thesis
    by (simp add: keep_on_error_def addImportantFact_def mood_ids_ok_def)
next
  case (OpAddMood u m now)
  with inv mood_ids_ok_addMood [OF inv, of u m now] show ?thesis
    by (simp add: keep_on_error_def addMood_def)
next
  case (OpClear u)
  show ?thesis unfolding OpClear apply_op.simps
    by (rule mood_ids_ok_filter [OF inv moods_clear]) simp
next
  case (OpGetImportantFacts u)
  with inv show ?thesis by simp
next
  case (OpGetRecentMood u)
  with inv show ?thesis by simp
qed

lemma distinct_user_moods: "mood_ids_ok s \<Longrightarrow> distinct (user_moods s u)"
  by (simp add: mood_ids_ok_def user_moods_def distinct_map)

text \<open>The trim leaves at most 50 rows of the user, whatever the time stamps are.\<close>

lemma trim_bound:
  assumes d: "distinct U"
    and L: "set L = set U" "distinct L" "length L = length U"
  shows "length (filter (\<lambda>r. f r \<notin> f ` set (drop 50 L)) U) \<le> 50"
proof -
  let ?P = "\<lambda>r. f r \<in> f ` set (drop 50 L)"
  have "set (drop 50 L) \<subseteq> set (filter ?P U)"
    using L(1) by (auto dest: in_set_dropD)
  then have "card (set (drop 50 L)) \<le> card (set (filter ?P U))"
    by (simp add: card_mono)
  moreover have "card (set (drop 50 L)) = length L - 50"
    using L(2) by (simp add: distinct_card)
  moreover have "card (set (filter ?P U)) \<le> length (filter ?P U)"
    by (rule card_length)
  ultimately have "length U - 50 \<le> length (filter ?P U)"
    using L(3) by simp
  moreover have "length (filter ?P U) + length (filter (\<lambda>r. \<not> ?P r) U) = length U"
    by (rule sum_length_filter_compl)
  ultimately show ?thesis by arith
qed

lemma user_moods_deleteOldMoods_bound:
  assumes "mood_ids_ok s"
  shows "length (user_moods (deleteOldMoods s u) u) \<le> 50"
  unfolding user_moods_deleteOldMoods
  by (rule trim_bound) (simp_all add: distinct_user_moods [OF assms] order_desc_def)

lemma user_moods_deleteOldMoods_le:
  "length (user_moods (deleteOldMoods s u) v) \<le> length (user_moods s v)"
proof -
  have "user_moods (deleteOldMoods s u) v =
      filter (\<lambda>r. mood_id r \<notin> mood_id ` set (drop 50 (order_desc mood_created (user_moods s u))))
        (user_moods s v)"
    by (simp add: user_moods_def moods_deleteOldMoods conj_commute)
  then show ?thesis by simp
qed

lemma user_moods_apply_op_bound:
  assumes inv: "mood_ids_ok s" and b: "length (user_moods s v) \<le> 50"
  shows "length (user_moods (apply_op s x) v) \<le> 50"
proof (cases x)
  case (OpAdd u r c now)
  with b show ?thesis by (simp add: keep_on_error_def add_def user_moods_def)
next
  case (OpAddImportantFact u f now)
  with b show ?thesis by (simp add: keep_on_error_def addImportantFact_def user_moods_def)
next
  case (OpAddMood u m now)
  show ?thesis
  proof (cases "v = u")
    case True
    with b OpAddMood user_moods_deleteOldMoods_bound [OF mood_ids_ok_insertMood [OF inv], of u m now u]
    show ?thesis by (simp add: keep_on_error_def addMood_def)
  next
    case False
    with b OpAddMood user_moods_deleteOldMoods_le [of "insertMood s u m now" u v]
    show ?thesis by (simp add: keep_on_error_def addMood_def user_moods_insertMood)
  qed
next
  case (OpClear u)
  have "length (user_moods (clear s u) v) \<le> length (user_moods s v)"
    by (simp add: user_moods_def moods_clear conj_commute)
       (metis filter_filter length_filter_le)
  with b OpClear show ?thesis by simp
next
  case (OpGetImportantFacts u)
  with b show ?thesis by simp
next
  case (OpGetRecentMood u)
  with b show ?thesis by simp
qed

lemma user_moods_run_ops_bound:
  "mood_ids_ok s \<Longrightarrow> length (user_moods s v) \<le> 50 \<Longrightarrow> length (user_moods (run_ops ops s) v) \<le> 50"
proof (induction ops arbitrary: s)
  case Nil
  then show ?case by (simp add: run_ops_def)
next
  case (Cons x ops)
  from Cons.IH [OF mood_ids_ok_apply_op [OF Cons.prems(1)] user_moods_apply_op_bound [OF Cons.prems]]
  show ?case by (simp add: run_ops_def)
qed

lemma mood_ids_ok_run_ops: "mood_ids_ok s \<Longrightarrow> mood_ids_ok (run_ops ops s)"
proof (induction ops arbitrary: s)
  case Nil
  then show ?case by (simp add: run_ops_def)
next
  case (Cons x ops)
  from Cons.IH [OF mood_ids_ok_apply_op [OF Cons.prems(1)]]
  show ?case by (simp add: run_ops_def)
qed

lemma mood_ids_ok_empty: "mood_ids_ok empty_db"
  by (simp add: mood_ids_ok_def empty_db_def)

text \<open>With a clock that never runs backwards the table of moods stays in time order.\<close>

lemma sorted_filter_append:
  assumes "sorted (map f xs @ ts)"
  shows "sorted (map f (filter P xs) @ ts)"
  using assms by (auto simp: sorted_append sorted_filter)

lemma sorted_drop_mid:
  assumes "sorted (xs @ t # ts)"
  shows "sorted (xs @ ts)"
  using assms by (auto simp: sorted_append)

lemma chrono_apply_op:
  assumes "sorted (map mood_created (moods s) @ op_time x @ ts)"
  shows "sorted (map mood_created (moods (apply_op s x)) @ ts)"
proof (cases x)
  case (OpAdd u r c now)
  with assms show ?thesis
    by (auto simp: keep_on_error_def add_def dest: sorted_drop_mid)
next
  case (OpAddImportantFact u f now)
  with assms show ?thesis
    by (auto simp: keep_on_error_def addImportantFact_def dest: sorted_drop_mid)
next
  case (OpAddMood u m now)
  from assms OpAddMood have s: "sorted (map mood_created (moods s) @ now # ts)" by simp
  have "sorted (map mood_created (moods (insertMood s u m now)) @ ts)"
    using s by (simp add: insertMood_def)
  then have "sorted (map mood_created (moods (deleteOldMoods (insertMood s u m now) u)) @ ts)"
    unfolding moods_deleteOldMoods by (rule sorted_filter_append)
  with s OpAddMood show ?thesis
    by (auto simp: keep_on_error_def addMood_def dest: sorted_drop_mid)
next
  case (OpClear u)
  with assms show ?thesis
    by (simp add: moods_clear sorted_filter_append)
next
  case (OpGetImportantFacts u)
  with assms show ?thesis by simp
next
  case (OpGetRecentMood u)
  with assms show ?thesis by simp
qed

lemma chrono_run_ops:
  "sorted (map mood_created (moods s) @ op_times ops @ ts)
   \<Longrightarrow> sorted (map mood_created (moods (run_ops ops s)) @ ts)"
proof (induction ops arbitrary: s)
  case Nil
  then show ?case by (simp add: run_ops_def op_times_def)
next
  case (Cons x ops)
  from Cons.prems have "sorted (map mood_created (moods s) @ op_time x @ (op_times ops @ ts))"
    by (simp add: op_times_def)
  from Cons.IH [OF chrono_apply_op [OF this]] show ?case
    by (simp add: run_ops_def)
qed

lemma user_moods_sorted:
  "sorted (map mood_created (moods s)) \<Longrightarrow> sorted (map mood_created (user_moods s u))"
  by (simp add: user_moods_def sorted_filter)

lemma getRecentMood_latest:
  assumes "sorted (map mood_created (moods s))"
  shows "getRecentMood s u = latest_inserted_mood s u"
proof -
  have "order_desc mood_created (user_moods s u) = rev (user_moods s u)"
    by (simp add: order_desc_def sort_key_id_if_sorted user_moods_sorted [OF assms])
  then show ?thesis
    by (cases "user_moods s u" rule: rev_cases)
       (simp_all add: getRecentMood_def getMood_def latest_inserted_mood_def sql_limit_def)
qed

lemma filter_not_in_take:
  assumes "distinct (map f xs)"
  shows "filter (\<lambda>r. f r \<notin> f ` set (take k xs)) xs = drop k xs"
proof -
  have d: "distinct (map f (take k xs) @ map f (drop k xs))"
    using assms by (simp add: map_append [symmetric] del: map_append)
  have "filter (\<lambda>r. f r \<notin> f ` set (take k xs)) (take k xs @ drop k xs) = drop k xs"
    unfolding filter_append using d
    by (auto simp: filter_empty_conv filter_id_conv)
  then show ?thesis by simp
qed

lemma trim_sorted:
  assumes d: "distinct (map mood_id U)" and srt: "sorted (map mood_created U)"
  shows "filter (\<lambda>r. mood_id r \<notin> mood_id ` set (drop 50 (order_desc mood_created U))) U
       = slice_last 50 U"
proof -
  have "drop 50 (order_desc mood_created U) = rev (take (length U - 50) U)"
    by (simp add: order_desc_def sort_key_id_if_sorted [OF srt] drop_rev)
  then show ?thesis
    by (simp add: slice_last_def filter_not_in_take [OF d])
qed

lemma addMood_sorted:
  assumes ids: "mood_ids_ok s" and srt: "sorted (map mood_created (moods s) @ [now])"
    and ok: "u \<noteq> 0" "m \<noteq> []"
  shows "\<exists>s'. addMood s u m now = Inr s'
     \<and> map mood_text (user_moods s' u) = slice_last 50 (map mood_text (user_moods s u) @ [m])
     \<and> getRecentMood s' u = Some m"
proof -
  let ?i = "insertMood s u m now"
  let ?s' = "deleteOldMoods ?i u"
  let ?new = "\<lparr>mood_id = seq_moods s, mood_user = u, mood_text = m, mood_created = now\<rparr>"
  have srt_i: "sorted (map mood_created (moods ?i))"
    using srt by (simp add: insertMood_def)
  have ui: "user_moods ?i u = user_moods s u @ [?new]"
    by (simp add: user_moods_insertMood)
  have "distinct (map mood_id (user_moods ?i u))"
    using mood_ids_ok_insertMood [OF ids, of u m now]
    by (simp add: mood_ids_ok_def user_moods_def distinct_map_filter)
  then have "user_moods ?s' u = slice_last 50 (user_moods ?i u)"
    unfolding user_moods_deleteOldMoods
    by (rule trim_sorted [OF _ user_moods_sorted [OF srt_i]])
  then have um: "user_moods ?s' u = slice_last 50 (user_moods s u @ [?new])"
    by (simp only: ui)
  have "sorted (map mood_created (moods ?s'))"
    unfolding moods_deleteOldMoods using srt_i by (simp add: sorted_filter)
  then have "getRecentMood ?s' u = latest_inserted_mood ?s' u"
    by (rule getRecentMood_latest)
  also have "\<dots> = Some m"
    unfolding latest_inserted_mood_def um
    by (simp add: slice_last_def)
  finally have g: "getRecentMood ?s' u = Some m" .
  have "map mood_text (user_moods ?s' u) = slice_last 50 (map mood_text (user_moods s u) @ [m])"
    unfolding um by (simp add: slice_last_def drop_map)
  with g ok show ?thesis by (simp add: addMood_def)
qed

text \<open>
  C5, as amended. After any sequence of store calls that starts from the empty database a
  user has at most 50 moods stored. When the clock readings of the calls never decrease,
  \<^verbatim>\<open>getRecentMood\<close> returns the mood of the row inserted last among those still stored, and
  nothing when no row is stored; and one more \<^verbatim>\<open>addMood\<close> at a reading \<open>now\<close> that is not
  earlier succeeds, keeps the last 50 moods of the old ones followed by the new one, and
  makes the new one the mood that \<^verbatim>\<open>getRecentMood\<close> returns.
\<close>

theorem moods_bounded_and_latest:
  "length (user_moods (run_ops ops empty_db) u) \<le> 50
   \<and> (sorted (op_times ops @ [now]) \<longrightarrow>
        getRecentMood (run_ops ops empty_db) u = latest_inserted_mood (run_ops ops empty_db) u
      \<and> (u \<noteq> 0 \<and> m \<noteq> [] \<longrightarrow>
           (\<exists>s'. addMood (run_ops ops empty_db) u m now = Inr s'
              \<and> map mood_text (user_moods s' u) =
                  slice_last 50 (map mood_text (user_moods (run_ops ops empty_db) u) @ [m])
              \<and> getRecentMood s' u = Some m)))"
proof -
  let ?s = "run_ops ops empty_db"
  have ids: "mood_ids_ok ?s"
    by (rule mood_ids_ok_run_ops [OF mood_ids_ok_empty])
  have b: "length (user_moods ?s u) \<le> 50"
    by (rule user_moods_run_ops_bound [OF mood_ids_ok_empty]) (simp add: user_moods_def empty_db_def)
  have c: "sorted (map mood_created (moods ?s) @ [now])" if "sorted (op_times ops @ [now])"
    by (rule chrono_run_ops) (simp add: empty_db_def that)
  have c': "sorted (map mood_created (moods ?s))" if "sorted (op_times ops @ [now])"
    using c [OF that] by (simp add: sorted_append)
  show ?thesis
    using b getRecentMood_latest [OF c'] addMood_sorted [OF ids c] by blast
qed

lemma calm_moods_rows:
  "map mood_text (user_moods (run_ops calm_moods empty_db) 7) = [js ''tired'', js ''calm'']"
  by (simp add: calm_moods_def run_ops_def addMood_def keep_on_error_def insertMood_def
      deleteOldMoods_def sql_limit_def order_desc_def user_moods_def empty_db_def js_def)

theorem moods_bounded_and_latest_witness:
  "sorted (op_times calm_moods @ [200]) \<and> (7::int) \<noteq> 0 \<and> js ''happy'' \<noteq> []
   \<and> length (user_moods (run_ops calm_moods empty_db) 7) \<le> 50
   \<and> getRecentMood (run_ops calm_moods empty_db) 7 = Some (js ''calm'')
   \<and> (\<exists>s'. addMood (run_ops calm_moods empty_db) 7 (js ''happy'') 200 = Inr s'
          \<and> map mood_text (user_moods s' 7) = [js ''tired'', js ''calm'', js ''happy'']
          \<and> getRecentMood s' 7 = Some (js ''happy''))"
proof -
  have t: "sorted (op_times calm_moods @ [200])"
    by (simp add: calm_moods_def op_times_def)
  have j: "js ''happy'' \<noteq> []" by (simp add: js_def)
  have l: "latest_inserted_mood (run_ops calm_moods empty_db) 7 = Some (js ''calm'')"
    using calm_moods_rows
    by (auto simp: latest_inserted_mood_def last_map [symmetric] simp del: last_map)
  have sl: "slice_last 50 [js ''tired'', js ''calm'', js ''happy'']
      = [js ''tired'', js ''calm'', js ''happy'']"
    by (simp add: slice_last_def)
  from moods_bounded_and_latest [of calm_moods 7 200 "js ''happy''"] t j l
  show ?thesis by (auto simp: calm_moods_rows sl)
qed

text \<open>
  The claim as stated fails where the clock goes back between two calls: \<^verbatim>\<open>getRecentMood\<close>
  orders by the time stamp, not by the order of insertion. After a mood written at the
  reading 200 and a second one written at the reading 100, both are stored, the one
  inserted last is the second, and the first is returned.
\<close>

theorem recent_mood_is_latest_time_stamp:
  "map mood_text (user_moods (run_ops late_clock_moods empty_db) 7) = [js ''calm'', js ''happy'']
   \<and> latest_inserted_mood (run_ops late_clock_moods empty_db) 7 = Some (js ''happy'')
   \<and> getRecentMood (run_ops late_clock_moods empty_db) 7 = Some (js ''calm'')"
  unfolding late_clock_moods_def by code_simp

section \<open>Properties of the model client\<close>

lemma attempts_append [simp]: "attempts (xs @ ys) = attempts xs + attempts ys"
  by (simp add: attempts_def)

lemma attempts_simps [simp]:
  "attempts [] = 0"
  "attempts (Post m # tr) = Suc (attempts tr)"
  "attempts (Sleep n # tr) = attempts tr"
  by (simp_all add: attempts_def)

lemma chat_loop_attempts:
  "attempts (snd (chat_loop t msgs a le tr)) \<le> attempts tr + (Suc maxRetries - a)"
proof (induction t msgs a le tr rule: chat_loop.induct)
  case (1 transport msgs attempt lastError tr)
  show ?case
  proof (cases "attempt \<le> maxRetries")
    case False
    then show ?thesis by (subst chat_loop.simps) simp
  next
    case le: True
    show ?thesis
    proof (cases "transport attempt")
      case (HttpError e)
      show ?thesis
      proof (cases "attempt = maxRetries")
        case True
        with HttpError show ?thesis by (subst chat_loop.simps) simp
      next
        case False
        from "1.IH"(1) [OF le HttpError False] le False HttpError show ?thesis
          by (subst chat_loop.simps) simp
      qed
    next
      case (HttpResponse c)
      show ?thesis
      proof (cases "truthy c")
        case (Some answer)
        with HttpResponse le show ?thesis
          by (subst chat_loop.simps) simp
      next
        case None
        show ?thesis
        proof (cases "attempt = maxRetries")
          case True
          with HttpResponse None show ?thesis
            by (subst chat_loop.simps) simp
        next
          case False
          from "1.IH"(2) [OF le HttpResponse None False] le False HttpResponse None show ?thesis
            by (subst chat_loop.simps) simp
        qed
      qed
    qed
  qed
qed

lemma chatWithLLM_attempts: "attempts (snd (chatWithLLM t msgs)) \<le> 3"
  using chat_loop_attempts [of t msgs 1 None "[]"]
  by (simp add: chatWithLLM_def maxRetries_def)

text \<open>A failed attempt before the last one: the back-off, then the next attempt.\<close>

lemma chat_loop_retry:
  assumes "attempt < maxRetries" and "attempt_failed (t attempt)"
  shows "\<exists>le'. chat_loop t msgs attempt le tr =
           chat_loop t msgs (attempt + 1) le' (tr @ [Post msgs, Sleep (1000 * attempt)])"
  using assms
  by (subst chat_loop.simps) (auto simp: attempt_failed_def split: http_result.splits option.splits)

lemma chat_loop_last_failure:
  assumes "attempt = maxRetries" and "attempt_failed (t attempt)"
  shows "chat_loop t msgs attempt le tr = (Inl (Some (attempt_error (t attempt))), tr @ [Post msgs])"
  using assms
  by (subst chat_loop.simps)
     (auto simp: attempt_failed_def attempt_error_def split: http_result.splits option.splits)

lemma chat_loop_success:
  assumes "attempt \<le> maxRetries" and "t attempt = HttpResponse (Some c)" and "c \<noteq> []"
  shows "chat_loop t msgs attempt le tr = (Inr c, tr @ [Post msgs])"
  using assms
  by (subst chat_loop.simps) (cases c, auto simp: truthy_def)

lemma chat_loop_first_retry:
  assumes "attempt_failed (t 1)"
  shows "\<exists>le'. chat_loop t msgs 1 le tr = chat_loop t msgs 2 le' (tr @ [Post msgs, Sleep 1000])"
  using chat_loop_retry [of 1 t msgs le tr] assms by (simp add: maxRetries_def eval_nat_numeral)

lemma chat_loop_second_retry:
  assumes "attempt_failed (t 2)"
  shows "\<exists>le'. chat_loop t msgs 2 le tr = chat_loop t msgs 3 le' (tr @ [Post msgs, Sleep 2000])"
  using chat_loop_retry [of 2 t msgs le tr] assms by (simp add: maxRetries_def eval_nat_numeral)

lemma chat_loop_two_failures:
  assumes "attempt_failed (t 1)" and "attempt_failed (t 2)"
  shows "\<exists>le. chat_loop t msgs 1 None [] =
           chat_loop t msgs 3 le [Post msgs, Sleep 1000, Post msgs, Sleep 2000]"
proof -
  obtain le1 where 1: "chat_loop t msgs 1 None [] = chat_loop t msgs 2 le1 ([] @ [Post msgs, Sleep 1000])"
    using chat_loop_first_retry [of t msgs None "[]"] assms(1) by blast
  obtain le2 where 2: "chat_loop t msgs 2 le1 ([] @ [Post msgs, Sleep 1000]) =
      chat_loop t msgs 3 le2 (([] @ [Post msgs, Sleep 1000]) @ [Post msgs, Sleep 2000])"
    using chat_loop_second_retry [of t msgs le1 "[] @ [Post msgs, Sleep 1000]"] assms(2) by blast
  from 1 2 show ?thesis by auto
qed

text \<open>An empty message array is rejected before any request is sent.\<close>

lemma chatWithLLM_empty_array: "chatWithLLM t [] = (Inl (Some InvalidMessagesArray), [])"
  by (simp add: chatWithLLM_def)

text \<open>
  C2. A call makes at most 3 attempts. For a message array that is not empty (the guard
  rejects an empty one before the first attempt; no caller passes one): when the first two
  attempts fail and the third answers with a content, that content is returned after exactly
  3 requests with pauses of 1000 and 2000 milliseconds between them; when all three attempts
  fail, the error of the third attempt is thrown after the same 3 requests and 2 pauses.
  An attempt fails when the request is rejected or the content is missing or empty, and its
  error is the rejection or the empty-content error made up by the client.
\<close>

theorem chatWithLLM_three_attempts:
  "attempts (snd (chatWithLLM t msgs)) \<le> 3
   \<and> (msgs \<noteq> [] \<and> attempt_failed (t 1) \<and> attempt_failed (t 2)
        \<and> t 3 = HttpResponse (Some c) \<and> c \<noteq> [] \<longrightarrow>
      chatWithLLM t msgs = (Inr c, [Post msgs, Sleep 1000, Post msgs, Sleep 2000, Post msgs]))
   \<and> (msgs \<noteq> [] \<and> attempt_failed (t 1) \<and> attempt_failed (t 2) \<and> attempt_failed (t 3) \<longrightarrow>
      chatWithLLM t msgs =
        (Inl (Some (attempt_error (t 3))), [Post msgs, Sleep 1000, Post msgs, Sleep 2000, Post msgs]))"
proof (intro conjI impI)
  show "attempts (snd (chatWithLLM t msgs)) \<le> 3" by (rule chatWithLLM_attempts)
next
  assume a: "msgs \<noteq> [] \<and> attempt_failed (t 1) \<and> attempt_failed (t 2)
      \<and> t 3 = HttpResponse (Some c) \<and> c \<noteq> []"
  then obtain le where "chat_loop t msgs 1 None [] =
      chat_loop t msgs 3 le [Post msgs, Sleep 1000, Post msgs, Sleep 2000]"
    using chat_loop_two_failures by blast
  with a chat_loop_success [of 3 t c msgs le "[Post msgs, Sleep 1000, Post msgs, Sleep 2000]"]
  show "chatWithLLM t msgs = (Inr c, [Post msgs, Sleep 1000, Post msgs, Sleep 2000, Post msgs])"
    by (simp add: chatWithLLM_def maxRetries_def)
next
  assume a: "msgs \<noteq> [] \<and> attempt_failed (t 1) \<and> attempt_failed (t 2) \<and> attempt_failed (t 3)"
  then obtain le where "chat_loop t msgs 1 None [] =
      chat_loop t msgs 3 le [Post msgs, Sleep 1000, Post msgs, Sleep 2000]"
    using chat_loop_two_failures by blast
  with a chat_loop_last_failure [of 3 t msgs le "[Post msgs, Sleep 1000, Post msgs, Sleep 2000]"]
  show "chatWithLLM t msgs =
      (Inl (Some (attempt_error (t 3))), [Post msgs, Sleep 1000, Post msgs, Sleep 2000, Post msgs])"
    by (simp add: chatWithLLM_def maxRetries_def)
qed

theorem chatWithLLM_three_attempts_witness:
  "one_message \<noteq> [] \<and> attempt_failed (flaky_transport 1) \<and> attempt_failed (flaky_transport 2)
   \<and> flaky_transport 3 = HttpResponse (Some (js ''ok'')) \<and> js ''ok'' \<noteq> []
   \<and> chatWithLLM flaky_transport one_message =
       (Inr (js ''ok''),
        [Post one_message, Sleep 1000, Post one_message, Sleep 2000, Post one_message])
   \<and> attempts (snd (chatWithLLM flaky_transport one_message)) = 3
   \<and> attempt_failed (failing_transport 1) \<and> attempt_failed (failing_transport 2)
   \<and> attempt_failed (failing_transport 3)
   \<and> chatWithLLM failing_transport one_message =
       (Inl (Some (TransportError 3)),
        [Post one_message, Sleep 1000, Post one_message, Sleep 2000, Post one_message])
   \<and> attempt_failed (empty_transport 1) \<and> attempt_failed (empty_transport 2)
   \<and> attempt_failed (empty_transport 3)
   \<and> chatWithLLM empty_transport one_message =
       (Inl (Some EmptyContent),
        [Post one_message, Sleep 1000, Post one_message, Sleep 2000, Post one_message])"
proof -
  have h: "one_message \<noteq> [] \<and> attempt_failed (flaky_transport 1)
      \<and> attempt_failed (flaky_transport 2)
      \<and> flaky_transport 3 = HttpResponse (Some (js ''ok'')) \<and> js ''ok'' \<noteq> []"
    by (simp add: one_message_def flaky_transport_def attempt_failed_def js_def)
  with chatWithLLM_three_attempts [of flaky_transport one_message "js ''ok''"]
  have flaky: "chatWithLLM flaky_transport one_message =
       (Inr (js ''ok''),
        [Post one_message, Sleep 1000, Post one_message, Sleep 2000, Post one_message])"
    by blast
  have f: "attempt_failed (failing_transport k)" "attempt_error (failing_transport 3) = TransportError 3"
    for k
    by (simp_all add: failing_transport_def attempt_failed_def attempt_error_def)
  with h chatWithLLM_three_attempts [of failing_transport one_message]
  have failing: "chatWithLLM failing_transport one_message =
       (Inl (Some (TransportError 3)),
        [Post one_message, Sleep 1000, Post one_message, Sleep 2000, Post one_message])"
    by simp
  have e: "attempt_failed (empty_transport k)" "attempt_error (empty_transport 3) = EmptyContent"
    for k
    by (simp_all add: empty_transport_def attempt_failed_def attempt_error_def truthy_def)
  with h chatWithLLM_three_attempts [of empty_transport one_message]
  have empty: "chatWithLLM empty_transport one_message =
       (Inl (Some EmptyContent),
        [Post one_message, Sleep 1000, Post one_message, Sleep 2000, Post one_message])"
    by simp
  from h flaky failing empty f(1) e(1) show ?thesis by simp
qed

section \<open>Properties of the scheduler\<close>

lemma sent_to_append [simp]: "sent_to k (xs @ ys) = sent_to k xs @ sent_to k ys"
  by (simp add: sent_to_def)

lemma sent_to_simps [simp]:
  "sent_to k [] = []"
  "sent_to k (Post ms # tr) = sent_to k tr"
  "sent_to k (Sleep n # tr) = sent_to k tr"
  "sent_to k (SendChatAction v # tr) = sent_to k tr"
  "sent_to k (ScheduleExtract u # tr) = sent_to k tr"
  "sent_to k (ScheduleMood u a b # tr) = sent_to k tr"
  "sent_to k (SendMessage v m # tr) = (if v = k then m # sent_to k tr else sent_to k tr)"
  by (simp_all add: sent_to_def)

text \<open>The model client hands nothing to the Telegram client: its effects are requests and
  pauses.\<close>

lemma chat_loop_sent_to: "sent_to k (snd (chat_loop t msgs a le tr)) = sent_to k tr"
proof (induction t msgs a le tr rule: chat_loop.induct)
  case (1 transport msgs attempt lastError tr)
  show ?case
  proof (cases "attempt \<le> maxRetries")
    case False
    then show ?thesis by (subst chat_loop.simps) simp
  next
    case le: True
    show ?thesis
    proof (cases "transport attempt")
      case (HttpError e)
      show ?thesis
      proof (cases "attempt = maxRetries")
        case True
        with HttpError show ?thesis by (subst chat_loop.simps) simp
      next
        case False
        from "1.IH"(1) [OF le HttpError False] le False HttpError show ?thesis
          by (subst chat_loop.simps) simp
      qed
    next
      case (HttpResponse c)
      show ?thesis
      proof (cases "truthy c")
        case (Some answer)
        with HttpResponse le show ?thesis
          by (subst chat_loop.simps) simp
      next
        case None
        show ?thesis
        proof (cases "attempt = maxRetries")
          case True
          with HttpResponse None show ?thesis
            by (subst chat_loop.simps) simp
        next
          case False
          from "1.IH"(2) [OF le HttpResponse None False] le False HttpResponse None show ?thesis
            by (subst chat_loop.simps) simp
        qed
      qed
    qed
  qed
qed

lemma chatWithLLM_sent_to [simp]: "sent_to k (snd (chatWithLLM t msgs)) = []"
  using chat_loop_sent_to [of k t msgs 1 None "[]"] by (simp add: chatWithLLM_def)

lemma chatWithLLM_sent_toD: "chatWithLLM t msgs = (r, tr) \<Longrightarrow> sent_to k tr = []"
  using chatWithLLM_sent_to [of k t msgs] by simp

lemma generateActiveMessage_sent_to [simp]: "sent_to k (snd (generateActiveMessage E w v)) = []"
  by (auto simp: generateActiveMessage_def Let_def split: sum.splits prod.splits
      dest: chatWithLLM_sent_toD)

text \<open>The generated text reads the store and the names, not the two time maps.\<close>

lemma generateActiveMessage_cong:
  "store w' = store w \<Longrightarrow> userNames w' = userNames w
   \<Longrightarrow> generateActiveMessage E w' k = generateActiveMessage E w k"
  unfolding generateActiveMessage_def by (simp cong: sum.case_cong)

lemma gates_open_cong:
  "lastInteractionTime w' k = lastInteractionTime w k
   \<Longrightarrow> lastActiveMessageTime w' k = lastActiveMessageTime w k
   \<Longrightarrow> gates_open w' now k = gates_open w now k"
  by (simp add: gates_open_def get_or_0_def)

lemma sweep_user_frame:
  "store (fst (sweep_user E (w, tr) v)) = store w
   \<and> userNames (fst (sweep_user E (w, tr) v)) = userNames w
   \<and> lastInteractionTime (fst (sweep_user E (w, tr) v)) = lastInteractionTime w
   \<and> lastMessageTime (fst (sweep_user E (w, tr) v)) = lastMessageTime w"
  by (simp add: sweep_user_def Let_def split: prod.splits)

lemma sweep_user_other:
  assumes "v \<noteq> k"
  shows "lastActiveMessageTime (fst (sweep_user E (w, tr) v)) k = lastActiveMessageTime w k
       \<and> sent_to k (snd (sweep_user E (w, tr) v)) = sent_to k tr"
proof -
  have "sent_to k (snd (generateActiveMessage E w v)) = []" by simp
  then have "\<And>m tr1. generateActiveMessage E w v = (m, tr1) \<Longrightarrow> sent_to k tr1 = []"
    by auto
  with assms show ?thesis
    by (auto simp: sweep_user_def Let_def split: prod.splits)
qed

lemma sweep_user_self:
  "lastActiveMessageTime (fst (sweep_user E (w, tr) k)) k = sweep_stamp E w k
   \<and> sent_to k (snd (sweep_user E (w, tr) k)) = sent_to k tr @ sweep_sent E w k"
proof -
  have "sent_to k (snd (generateActiveMessage E w k)) = []" by simp
  then have "\<And>m tr1. generateActiveMessage E w k = (m, tr1) \<Longrightarrow> sent_to k tr1 = []"
    by auto
  then show ?thesis
    by (auto simp: sweep_user_def sweep_stamp_def sweep_sent_def Let_def split: prod.splits)
qed

lemma sweep_fold_frame:
  "store (fst (foldl (sweep_user E) (w, tr) ks)) = store w
   \<and> userNames (fst (foldl (sweep_user E) (w, tr) ks)) = userNames w
   \<and> lastInteractionTime (fst (foldl (sweep_user E) (w, tr) ks)) = lastInteractionTime w
   \<and> lastMessageTime (fst (foldl (sweep_user E) (w, tr) ks)) = lastMessageTime w"
proof (induction ks arbitrary: w tr)
  case Nil
  show ?case by simp
next
  case (Cons v ks)
  obtain w1 tr1 where s: "sweep_user E (w, tr) v = (w1, tr1)" by (cases "sweep_user E (w, tr) v")
  with sweep_user_frame [of E w tr v] Cons.IH [of w1 tr1] show ?case by simp
qed

lemma sweep_fold_other:
  "k \<notin> set ks \<Longrightarrow>
   lastActiveMessageTime (fst (foldl (sweep_user E) (w, tr) ks)) k = lastActiveMessageTime w k
   \<and> sent_to k (snd (foldl (sweep_user E) (w, tr) ks)) = sent_to k tr"
proof (induction ks arbitrary: w tr)
  case Nil
  show ?case by simp
next
  case (Cons v ks)
  obtain w1 tr1 where s: "sweep_user E (w, tr) v = (w1, tr1)" by (cases "sweep_user E (w, tr) v")
  from Cons.prems have "v \<noteq> k" "k \<notin> set ks" by auto
  with sweep_user_other [of v k E w tr] Cons.IH [of w1 tr1] s show ?case by simp
qed

lemma sweep_stamp_cong:
  assumes "store w' = store w" "userNames w' = userNames w"
    "lastInteractionTime w' = lastInteractionTime w"
    "lastActiveMessageTime w' k = lastActiveMessageTime w k"
  shows "sweep_stamp E w' k = sweep_stamp E w k \<and> sweep_sent E w' k = sweep_sent E w k"
  using assms generateActiveMessage_cong [of w' w E k]
    gates_open_cong [of w' k w "sweep_now E (chat_of k)"]
  by (simp add: sweep_stamp_def sweep_sent_def)

lemma sweep_fold_self:
  "distinct ks \<Longrightarrow> k \<in> set ks \<Longrightarrow>
   lastActiveMessageTime (fst (foldl (sweep_user E) (w, tr) ks)) k = sweep_stamp E w k
   \<and> sent_to k (snd (foldl (sweep_user E) (w, tr) ks)) = sent_to k tr @ sweep_sent E w k"
proof (induction ks arbitrary: w tr)
  case Nil
  then show ?case by simp
next
  case (Cons v ks)
  obtain w1 tr1 where s: "sweep_user E (w, tr) v = (w1, tr1)" by (cases "sweep_user E (w, tr) v")
  show ?case
  proof (cases "v = k")
    case True
    with Cons.prems have "k \<notin> set ks" by simp
    from sweep_fold_other [OF this, of E w1 tr1] sweep_user_self [of E w tr k] s True
    show ?thesis by simp
  next
    case False
    with Cons.prems have d: "distinct ks" and m: "k \<in> set ks" by auto
    have "sweep_stamp E w1 k = sweep_stamp E w k \<and> sweep_sent E w1 k = sweep_sent E w k"
      using sweep_user_frame [of E w tr v] sweep_user_other [OF False, of E w tr] s
      by (intro sweep_stamp_cong) simp_all
    with Cons.IH [OF d m, of w1 tr1] sweep_user_other [OF False, of E w tr] s
    show ?thesis by simp
  qed
qed

lemma distinct_getUserIds: "distinct (getUserIds s)"
  by (simp add: getUserIds_def getUserIds_stmt_def distinct_map inj_on_def)

text \<open>The ids of a sweep are the texts of the chats that have a message in the store.\<close>

lemma set_getUserIds: "set (getUserIds s) = IdText ` msg_user ` set (messages s)"
  by (simp add: getUserIds_def getUserIds_stmt_def)

text \<open>
  What one sweep does for an id \<open>k\<close> that it reads from the store. It hands a message to the
  Telegram client under \<open>k\<close> exactly when the two time maps, read at \<open>k\<close>, leave both gates
  open at the clock reading taken for \<open>k\<close>, and then it hands over one message, the
  generated text. When the gates are open and the client accepts the message, the time of
  the last proactive message at \<open>k\<close> becomes that clock reading; otherwise it stays. The time
  of the last interaction and the store are never changed by a sweep.
\<close>

lemma sweep_by_id:
  assumes "\<not> read_fault E ReadUserIds" and "k \<in> set (getUserIds (store w))"
  shows "sent_to k (snd (initiateActiveConversation E w)) =
           (if gates_open w (sweep_now E (chat_of k)) k
            then [fst (generateActiveMessage E w k)] else [])
       \<and> lastActiveMessageTime (fst (initiateActiveConversation E w)) k =
           (if gates_open w (sweep_now E (chat_of k)) k
               \<and> bot_ok E (SendMessage k (fst (generateActiveMessage E w k)))
            then Some (sweep_now E (chat_of k)) else lastActiveMessageTime w k)
       \<and> lastInteractionTime (fst (initiateActiveConversation E w)) = lastInteractionTime w
       \<and> store (fst (initiateActiveConversation E w)) = store w"
proof -
  from sweep_fold_self [OF distinct_getUserIds assms(2), of E w "[]"]
    sweep_fold_frame [of E w "[]" "getUserIds (store w)"] assms(1)
  show ?thesis
    by (simp add: initiateActiveConversation_def sweep_stamp_def sweep_sent_def)
qed

text \<open>
  The gate of the last proactive message reads what the sweep itself wrote, under the same
  text. The gate of the last interaction reads at a text a map that the handler writes at
  the number of the chat: where no text is a key of that map, the gate compares the clock
  with 0.
\<close>

lemma gates_open_text:
  assumes "lastInteractionTime w (IdText u) = None"
  shows "gates_open w now (IdText u) \<longleftrightarrow>
           now > USER_INACTIVE_THRESHOLD
           \<and> now - get_or_0 (lastActiveMessageTime w) (IdText u) > ACTIVE_MESSAGE_INTERVAL"
  using assms by (simp add: gates_open_def get_or_0_def)

lemma chatWithLLM_first_success:
  assumes "msgs \<noteq> []" and "t 1 = HttpResponse (Some c)" and "c \<noteq> []"
  shows "chatWithLLM t msgs = (Inr c, [Post msgs])"
  using assms chat_loop_success [of 1 t c msgs None "[]"]
  by (simp add: chatWithLLM_def maxRetries_def)

lemma js_trim_how_are_you: "js_trim (js ''How are you?'') = js ''How are you?''"
  by (simp add: js_trim_def js_def is_js_space_def)

lemma example_generated:
  "generateActiveMessage example_env w (IdText 7) =
     (js ''How are you?'',
      [Post [system_message (js ''You are Rose.''),
             user_message
               (active_prompt example_env
                  (case js_or (userNames w (IdText 7)) None of None \<Rightarrow> FRIEND | Some n \<Rightarrow> n)
                  (getImportantFacts (store w) 7) (getRecentMood (store w) 7)
                  (getChatCount (store w) 7) (minutes 600))]])"
proof -
  have t: "transport example_env 7 1 = HttpResponse (Some (js ''How are you?''))"
    by (simp add: example_env_def)
  have n: "js ''How are you?'' \<noteq> []" by (simp add: js_def)
  have p: "buildSystemPrompt (persona_of example_env) a = js ''You are Rose.''" for a
    by (simp add: example_env_def example_persona_def)
  have f: "read_store example_env r v = Inr v" for r and v :: 'a
    by (simp add: read_store_def example_env_def)
  have s: "sweep_now example_env 7 = minutes 600" by (simp add: example_env_def)
  have c: "chatWithLLM (transport example_env 7) [a, b] = (Inr (js ''How are you?''), [Post [a, b]])"
    for a b
    using chatWithLLM_first_success [of "[a, b]" "transport example_env 7" "js ''How are you?''"] t n
    by simp
  show ?thesis
    unfolding generateActiveMessage_def Let_def chat_of.simps f p s
    by (simp add: c n js_trim_how_are_you)
qed

lemma idle_world_users: "getUserIds (store idle_world) = [IdText 7]"
  by (simp add: idle_world_def getUserIds_def getUserIds_stmt_def eval_nat_numeral add_def
      keep_on_error_def insertMessage_def empty_db_def js_def)

lemma idle_world_gates: "gates_open idle_world (minutes 600) (IdText 7)"
  by (simp add: gates_open_def idle_world_def get_or_0_def minutes_def
      USER_INACTIVE_THRESHOLD_def ACTIVE_MESSAGE_INTERVAL_def)

lemma recently_contacted_world_gates:
  "\<not> gates_open recently_contacted_world (minutes 600) (IdText 7)"
  by (simp add: gates_open_def recently_contacted_world_def idle_world_def get_or_0_def
      minutes_def USER_INACTIVE_THRESHOLD_def ACTIVE_MESSAGE_INTERVAL_def)

text \<open>The two worlds of the example: after 3 hours a message goes out and the time is set,
  after 30 minutes nothing is sent and the time stays.\<close>

lemma sweep_examples:
  "sent_to (IdText 7) (snd (initiateActiveConversation example_env idle_world))
     = [js ''How are you?'']
   \<and> lastActiveMessageTime (fst (initiateActiveConversation example_env idle_world)) (IdText 7)
       = Some (minutes 600)
   \<and> sent_to (IdText 7) (snd (initiateActiveConversation example_env recently_contacted_world)) = []
   \<and> lastActiveMessageTime (fst (initiateActiveConversation example_env recently_contacted_world))
        (IdText 7) = Some (minutes 570)"
proof -
  have f: "\<not> read_fault example_env ReadUserIds" by (simp add: example_env_def)
  have n: "sweep_now example_env 7 = minutes 600" by (simp add: example_env_def)
  have ok: "bot_ok example_env e" for e by (simp add: example_env_def)
  have u1: "IdText 7 \<in> set (getUserIds (store idle_world))" by (simp add: idle_world_users)
  have u2: "IdText 7 \<in> set (getUserIds (store recently_contacted_world))"
    using idle_world_users by (simp add: recently_contacted_world_def)
  have l: "lastActiveMessageTime recently_contacted_world (IdText 7) = Some (minutes 570)"
    by (simp add: recently_contacted_world_def)
  from sweep_by_id [OF f u1] sweep_by_id [OF f u2]
  show ?thesis
    by (simp add: n ok l idle_world_gates recently_contacted_world_gates example_generated)
qed

section \<open>Properties of context assembly\<close>

lemma assemble_last:
  "assemble E w now u userMessage = Inr msgs \<Longrightarrow> msgs \<noteq> [] \<and> last msgs = user_message userMessage"
  by (auto simp: assemble_def Let_def split: sum.splits)




text \<open>Without a failure the list is the persona, the recent history and the new message.\<close>

lemma buildMessages_example:
  "buildMessages example_env idle_world (minutes 600) 7 (js ''hello'') =
     Inr [system_message (js ''You are Rose.''), user_message (js ''hi''), user_message (js ''hi''),
          user_message (js ''hello'')]"
  by (simp add: buildMessages_def assemble_def read_store_def example_env_def example_persona_def
      idle_world_def getTimeGap_def js_or_def truthy_def getRecent_def getRecentMessages_def
      sql_limit_def order_desc_def user_messages_def eval_nat_numeral add_def keep_on_error_def
      insertMessage_def empty_db_def project_message_def user_message_def js_def minutes_def
      Let_def)

section \<open>Properties of turn handling\<close>

text \<open>
  C7. An update from a chat (its id is not 0) whose text has more than 1000 code units
  makes the handler hand the notice to the Telegram client and return: this is the only
  effect, so no request goes to the model, and the store and the session maps are as they
  were.
\<close>

theorem oversized_message_is_rejected:
  assumes "tg_chat msg = Some u" and "u \<noteq> 0" and "tg_text msg = Some t"
    and "length t > MAX_MESSAGE_LENGTH"
  shows "handleMessage E w msg = (w, [SendMessage (IdNumber u) TOO_LONG_NOTICE])
       \<and> attempts (snd (handleMessage E w msg)) = 0
       \<and> store (fst (handleMessage E w msg)) = store w"
proof -
  from assms(4) have "t \<noteq> []" by auto
  then have "truthy (Some t) = Some t" by (cases t) (simp_all add: truthy_def)
  with assms have "handleMessage E w msg = (w, [SendMessage (IdNumber u) TOO_LONG_NOTICE])"
    by (simp add: handleMessage_def)
  then show ?thesis by (simp add: attempts_def)
qed

theorem oversized_message_is_rejected_witness:
  "tg_chat oversized_message = Some 7 \<and> (7::int) \<noteq> 0
   \<and> tg_text oversized_message = Some (replicate 1001 0x61)
   \<and> length (replicate 1001 (0x61::jchar)) > MAX_MESSAGE_LENGTH
   \<and> handleMessage example_env idle_world oversized_message
       = (idle_world, [SendMessage (IdNumber 7) TOO_LONG_NOTICE])
   \<and> attempts (snd (handleMessage example_env idle_world oversized_message)) = 0"
proof -
  have h: "tg_chat oversized_message = Some 7" "tg_text oversized_message = Some (replicate 1001 0x61)"
    "length (replicate 1001 (0x61::jchar)) > MAX_MESSAGE_LENGTH"
    by (simp_all add: oversized_message_def MAX_MESSAGE_LENGTH_def)
  from oversized_message_is_rejected [OF h(1) _ h(2) h(3), of example_env idle_world] h
  show ?thesis by (simp add: attempts_def)
qed

lemma tasks_append [simp]: "tasks (xs @ ys) = tasks xs @ tasks ys"
  by (simp add: tasks_def)

lemma tasks_simps [simp]:
  "tasks [] = []"
  "tasks (Post ms # tr) = tasks tr"
  "tasks (Sleep n # tr) = tasks tr"
  "tasks (SendChatAction k # tr) = tasks tr"
  "tasks (SendMessage k m # tr) = tasks tr"
  "tasks (ScheduleExtract v # tr) = ScheduleExtract v # tasks tr"
  "tasks (ScheduleMood v a b # tr) = ScheduleMood v a b # tasks tr"
  by (simp_all add: tasks_def is_task_def)

lemma is_request_simps [simp]: "is_request (Post ms)" "is_request (Sleep n)"
  by (simp_all add: is_request_def)

text \<open>The effects of the model client are requests and pauses, and a content it returns is
  not empty.\<close>

lemma chat_loop_shape:
  "\<exists>tr1. snd (chat_loop t msgs a le tr) = tr @ tr1 \<and> list_all is_request tr1
         \<and> (\<forall>r. fst (chat_loop t msgs a le tr) = Inr r \<longrightarrow> r \<noteq> [])"
proof (induction t msgs a le tr rule: chat_loop.induct)
  case (1 transport msgs attempt lastError tr)
  show ?case
  proof (cases "attempt \<le> maxRetries")
    case False
    then have eq: "chat_loop transport msgs attempt lastError tr = (Inl lastError, tr)"
      by (subst chat_loop.simps) simp
    show ?thesis unfolding eq by simp
  next
    case le: True
    show ?thesis
    proof (cases "transport attempt")
      case (HttpError e)
      show ?thesis
      proof (cases "attempt = maxRetries")
        case True
        with HttpError have eq: "chat_loop transport msgs attempt lastError tr =
            (Inl (Some (TransportError e)), tr @ [Post msgs])"
          by (subst chat_loop.simps) simp
        show ?thesis unfolding eq by simp
      next
        case False
        let ?tr = "tr @ [Post msgs, Sleep (1000 * attempt)]"
        from le False HttpError
        have eq: "chat_loop transport msgs attempt lastError tr =
            chat_loop transport msgs (attempt + 1) (Some (TransportError e)) ?tr"
          by (subst chat_loop.simps) simp
        from "1.IH"(1) [OF le HttpError False] obtain tr1 where
          s: "snd (chat_loop transport msgs (attempt + 1) (Some (TransportError e)) ?tr) = ?tr @ tr1"
          and r: "list_all is_request tr1"
          and f: "\<forall>r. fst (chat_loop transport msgs (attempt + 1) (Some (TransportError e)) ?tr)
                    = Inr r \<longrightarrow> r \<noteq> []"
          by blast
        show ?thesis unfolding eq
          using s r f
          by (intro exI [of _ "[Post msgs, Sleep (1000 * attempt)] @ tr1"])
             simp
      qed
    next
      case (HttpResponse c)
      show ?thesis
      proof (cases "truthy c")
        case (Some answer)
        then have ne: "answer \<noteq> []"
          by (auto simp: truthy_def split: option.splits list.splits)
        from Some HttpResponse le
        have eq: "chat_loop transport msgs attempt lastError tr = (Inr answer, tr @ [Post msgs])"
          by (subst chat_loop.simps) simp
        show ?thesis unfolding eq by (simp add: ne)
      next
        case None
        show ?thesis
        proof (cases "attempt = maxRetries")
          case True
          with HttpResponse None have eq: "chat_loop transport msgs attempt lastError tr =
              (Inl (Some EmptyContent), tr @ [Post msgs])"
            by (subst chat_loop.simps) simp
          show ?thesis unfolding eq by simp
        next
          case False
          let ?tr = "tr @ [Post msgs, Sleep (1000 * attempt)]"
          from le False HttpResponse None
          have eq: "chat_loop transport msgs attempt lastError tr =
              chat_loop transport msgs (attempt + 1) lastError ?tr"
            by (subst chat_loop.simps) simp
          from "1.IH"(2) [OF le HttpResponse None False] obtain tr1 where
            s: "snd (chat_loop transport msgs (attempt + 1) lastError ?tr) = ?tr @ tr1"
            and r: "list_all is_request tr1"
            and f: "\<forall>r. fst (chat_loop transport msgs (attempt + 1) lastError ?tr)
                      = Inr r \<longrightarrow> r \<noteq> []"
            by blast
          show ?thesis unfolding eq
            using s r f
            by (intro exI [of _ "[Post msgs, Sleep (1000 * attempt)] @ tr1"])
               simp
        qed
      qed
    qed
  qed
qed

lemma tasks_requests: "list_all is_request tr \<Longrightarrow> tasks tr = []"
  by (induction tr) (auto simp: is_request_def tasks_def is_task_def split: effect.splits)

lemma chatWithLLM_shape:
  assumes "chatWithLLM t msgs = (r, tr)"
  shows "tasks tr = [] \<and> (\<forall>x. r = Inr x \<longrightarrow> x \<noteq> [])"
proof (cases "msgs = []")
  case True
  with assms show ?thesis by (auto simp: chatWithLLM_def)
next
  case False
  with assms have c: "chat_loop t msgs 1 None [] = (r, tr)" by (simp add: chatWithLLM_def)
  from chat_loop_shape [of t msgs 1 None "[]"] c show ?thesis
    by (auto simp: tasks_requests)
qed

lemma handle_failure_tasks [simp]: "tasks (snd (handle_failure E w u tr)) = tasks tr"
  by (simp add: handle_failure_def)

text \<open>The end of a turn: the two messages are stored and the tasks are scheduled.\<close>

lemma after_reply_result:
  assumes "u \<noteq> 0"
  shows "getChatCount (store (fst (after_reply E w u um reply tr))) u = getChatCount (store w) u + 2
       \<and> snd (after_reply E w u um reply tr) =
           tr @ (if (getChatCount (store w) u + 2) mod 10 = 0 then [ScheduleExtract u] else [])
              @ [ScheduleMood u um reply]"
proof -
  have "js ''user'' \<noteq> []" "js ''assistant'' \<noteq> []" by (simp_all add: js_def)
  with assms show ?thesis
    by (simp add: after_reply_def add_def Let_def getChatCount_def user_messages_def
        insertMessage_def)
qed

text \<open>Every run of the handler either schedules nothing or ends as a completed turn.\<close>

lemma handleMessage_shape:
  "tasks (snd (handleMessage E w msg)) = []
   \<or> (\<exists>w1 u um reply tr. u \<noteq> 0 \<and> tasks tr = []
        \<and> handleMessage E w msg = after_reply E w1 u um reply tr)"
proof (cases "tg_chat msg")
  case None
  then show ?thesis by (simp add: handleMessage_def)
next
  case (Some u)
  show ?thesis
  proof (cases "truthy (tg_text msg)")
    case None
    with Some show ?thesis by (simp add: handleMessage_def)
  next
    case um: (Some userMessage)
    let ?w1 = "save_user_name w u (js_or (tg_username msg) (js_or (tg_first_name msg) None))"
    consider (zero) "u = 0"
      | (long) "u \<noteq> 0" "length userMessage > MAX_MESSAGE_LENGTH"
      | (command) "u \<noteq> 0" "\<not> length userMessage > MAX_MESSAGE_LENGTH"
          "startsWith_slash userMessage"
      | (typing) "u \<noteq> 0" "\<not> length userMessage > MAX_MESSAGE_LENGTH"
          "\<not> startsWith_slash userMessage" "\<not> bot_ok E (SendChatAction (IdNumber u))"
      | (turn) "u \<noteq> 0" "\<not> length userMessage > MAX_MESSAGE_LENGTH"
          "\<not> startsWith_slash userMessage" "bot_ok E (SendChatAction (IdNumber u))"
      by blast
    then show ?thesis
    proof cases
      case zero
      with Some um show ?thesis by (simp add: handleMessage_def)
    next
      case long
      with Some um show ?thesis by (simp add: handleMessage_def)
    next
      case command
      with Some um show ?thesis by (simp add: handleMessage_def Let_def)
    next
      case typing
      with Some um show ?thesis by (simp add: handleMessage_def Let_def)
    next
      case turn
      show ?thesis
      proof (cases "buildMessages E ?w1 (clock E 0) u userMessage")
        case (Inl e)
        with turn Some um show ?thesis by (simp add: handleMessage_def Let_def)
      next
        case (Inr ms)
        obtain r tr where c: "chatWithLLM (transport E u) ms = (r, tr)"
          by (cases "chatWithLLM (transport E u) ms")
        note sh = chatWithLLM_shape [OF c]
        show ?thesis
        proof (cases r)
          case e: (Inl e)
          with turn Some um Inr c sh show ?thesis by (simp add: handleMessage_def Let_def)
        next
          case reply: (Inr reply)
          consider (blank) "reply = [] \<or> length (js_trim reply) = 0"
            | (too_long) "\<not> (reply = [] \<or> length (js_trim reply) = 0)"
                "length reply > TELEGRAM_LIMIT"
            | (undelivered) "\<not> (reply = [] \<or> length (js_trim reply) = 0)"
                "\<not> length reply > TELEGRAM_LIMIT" "\<not> bot_ok E (SendMessage (IdNumber u) reply)"
            | (completed) "\<not> (reply = [] \<or> length (js_trim reply) = 0)"
                "\<not> length reply > TELEGRAM_LIMIT" "bot_ok E (SendMessage (IdNumber u) reply)"
            by blast
          then show ?thesis
          proof cases
            case blank
            with turn Some um Inr c sh reply show ?thesis
              by (simp add: handleMessage_def Let_def)
          next
            case too_long
            with turn Some um Inr c sh reply show ?thesis
              by (simp add: handleMessage_def Let_def)
          next
            case undelivered
            with turn Some um Inr c sh reply show ?thesis
              by (simp add: handleMessage_def Let_def)
          next
            case completed
            with turn Some um Inr c reply
            have "handleMessage E w msg =
                after_reply E ?w1 u userMessage reply (SendChatAction (IdNumber u) # tr @ [SendMessage (IdNumber u) reply])"
              by (simp add: handleMessage_def Let_def)
            moreover have "tasks (SendChatAction (IdNumber u) # tr @ [SendMessage (IdNumber u) reply]) = []"
              using sh by simp
            ultimately show ?thesis using turn(1) by blast
          qed
        qed
      qed
    qed
  qed
qed

lemma extraction_scheduled_iff:
  "ScheduleExtract u \<in> set (snd (handleMessage E w msg)) \<longleftrightarrow>
     (\<exists>a b. ScheduleMood u a b \<in> set (snd (handleMessage E w msg)))
     \<and> getChatCount (store (fst (handleMessage E w msg))) u mod 10 = 0"
proof -
  let ?T = "snd (handleMessage E w msg)"
  have te: "ScheduleExtract u \<in> set ?T \<longleftrightarrow> ScheduleExtract u \<in> set (tasks ?T)"
    by (simp add: tasks_def is_task_def)
  have tm: "ScheduleMood u a b \<in> set ?T \<longleftrightarrow> ScheduleMood u a b \<in> set (tasks ?T)" for a b
    by (simp add: tasks_def is_task_def)
  from handleMessage_shape [of E w msg] show ?thesis
  proof
    assume "tasks ?T = []"
    with te tm show ?thesis by simp
  next
    assume "\<exists>w1 v um reply tr. v \<noteq> 0 \<and> tasks tr = []
        \<and> handleMessage E w msg = after_reply E w1 v um reply tr"
    then obtain w1 v um reply tr where v: "v \<noteq> 0" and e: "tasks tr = []"
      and h: "handleMessage E w msg = after_reply E w1 v um reply tr"
      by blast
    from after_reply_result [OF v, of E w1 um reply tr] e h
    have T: "tasks ?T =
        (if (getChatCount (store w1) v + 2) mod 10 = 0 then [ScheduleExtract v] else [])
        @ [ScheduleMood v um reply]"
      and C: "getChatCount (store (fst (handleMessage E w msg))) v = getChatCount (store w1) v + 2"
      by simp_all
    show ?thesis
    proof (cases "v = u")
      case True
      with T C show ?thesis unfolding te tm by auto
    next
      case False
      with T show ?thesis unfolding te tm by auto
    qed
  qed
qed

lemma buildMessages_total:
  assumes "u \<noteq> 0" and "userMessage \<noteq> []"
  shows "\<exists>ms. buildMessages E w now u userMessage = Inr ms \<and> ms \<noteq> []"
proof (cases "assemble E w now u userMessage")
  case (Inl e)
  with assms show ?thesis by (simp add: buildMessages_def)
next
  case (Inr ms)
  with assms assemble_last [OF Inr] show ?thesis by (simp add: buildMessages_def)
qed

text \<open>A completed turn, by its conditions: the update is a message of at most 1000 code
  units that is no command, the typing indicator goes out, the model answers with a reply
  that is not blank and has at most 4096 code units, and the reply is delivered.\<close>

lemma handleMessage_completed:
  assumes "tg_chat msg = Some u" and "u \<noteq> 0" and "truthy (tg_text msg) = Some um"
    and "length um \<le> MAX_MESSAGE_LENGTH" and "\<not> startsWith_slash um"
    and "bot_ok E (SendChatAction (IdNumber u))"
    and "buildMessages E (save_user_name w u (js_or (tg_username msg) (js_or (tg_first_name msg) None)))
           (clock E 0) u um = Inr ms"
    and "chatWithLLM (transport E u) ms = (Inr reply, tr)"
    and "js_trim reply \<noteq> []" and "length reply \<le> TELEGRAM_LIMIT"
    and "bot_ok E (SendMessage (IdNumber u) reply)"
  shows "handleMessage E w msg =
           after_reply E (save_user_name w u (js_or (tg_username msg) (js_or (tg_first_name msg) None)))
             u um reply (SendChatAction (IdNumber u) # tr @ [SendMessage (IdNumber u) reply])"
proof -
  from assms(8) chatWithLLM_shape [OF assms(8)] have "reply \<noteq> []" by simp
  with assms show ?thesis by (simp add: handleMessage_def Let_def)
qed

subsection \<open>Fact extraction\<close>

lemma set_getImportantFacts:
  "set (getImportantFacts s u) = mem_fact ` {r \<in> set (memories s). mem_user r = u}"
  by (auto simp: getImportantFacts_def getMemories_def order_desc_sorted_def user_memories_def)

lemma getImportantFacts_insertMemory:
  "set (getImportantFacts (insertMemory s u f now) u) = insert f (set (getImportantFacts s u))"
proof (cases "list_ex (\<lambda>r. mem_user r = u \<and> mem_fact r = f) (memories s)")
  case True
  then have "f \<in> set (getImportantFacts s u)"
    by (auto simp: set_getImportantFacts list_ex_iff image_iff)
  with True show ?thesis by (simp add: insertMemory_def insert_absorb)
next
  case False
  then show ?thesis
    by (simp add: getImportantFacts_def getMemories_def order_desc_sorted_def user_memories_def
        insertMemory_def)
qed

lemma record_facts_ok:
  "u \<noteq> 0 \<Longrightarrow> list_all (\<lambda>f. f \<noteq> []) facts \<Longrightarrow>
   \<exists>s'. record_facts s u facts clk k = (None, s')
      \<and> set (getImportantFacts s' u) = set (getImportantFacts s u) \<union> set facts"
proof (induction facts arbitrary: s k)
  case Nil
  show ?case by simp
next
  case (Cons f facts)
  from Cons.prems have f: "f \<noteq> []" and fs: "list_all (\<lambda>f. f \<noteq> []) facts" by simp_all
  from Cons.IH [OF Cons.prems(1) fs, of "insertMemory s u f (clk k)" "Suc k"]
  obtain s' where "record_facts (insertMemory s u f (clk k)) u facts clk (Suc k) = (None, s')"
    and "set (getImportantFacts s' u) =
         set (getImportantFacts (insertMemory s u f (clk k)) u) \<union> set facts"
    by blast
  with Cons.prems(1) f show ?case
    by (simp add: addImportantFact_def getImportantFacts_insertMemory)
qed

lemma parse_facts_nonempty: "list_all (\<lambda>f. f \<noteq> []) (parse_facts result)"
  by (auto simp: parse_facts_def list_all_iff)

lemma parse_facts_filter:
  "parse_facts result =
     filter (\<lambda>line. 3 < length line \<and> length line < 100)
       (map (\<lambda>line. js_trim (strip_bullet line)) (split_on newline result))"
  unfolding parse_facts_def by (rule filter_cong) auto

lemma length_last_messages: "length (slice_last 20 (getAll s u)) = min 20 (getChatCount s u)"
  by (simp add: slice_last_def length_getAll)

lemma extractImportantFacts_result:
  assumes "u \<noteq> 0" and "2 \<le> getChatCount s u"
    and "chatWithLLM (transport E u)
           (extraction_messages (persona_of E) (slice_last 20 (getAll s u))) = (Inr result, tr)"
  shows "(result = NOTHING_SIGNAL \<longrightarrow> extractImportantFacts E s u = ([], s, tr))
       \<and> (result \<noteq> NOTHING_SIGNAL \<longrightarrow>
            (\<exists>s'. extractImportantFacts E s u = (parse_facts result, s', tr)
               \<and> set (getImportantFacts s' u)
                   = set (getImportantFacts s u) \<union> set (parse_facts result)))"
proof -
  have l: "2 \<le> length (slice_last 20 (getAll s u))"
    using assms(2) by (simp add: length_last_messages)
  from chatWithLLM_shape [OF assms(3)] have ne: "result \<noteq> []" by simp
  from record_facts_ok [OF assms(1) parse_facts_nonempty, of s result "clock E" 0]
  obtain s' where r: "record_facts s u (parse_facts result) (clock E) 0 = (None, s')"
    and g: "set (getImportantFacts s' u) = set (getImportantFacts s u) \<union> set (parse_facts result)"
    by blast
  from l have nz: "slice_last 20 (getAll s u) \<noteq> []"
    and l2: "\<not> length (slice_last 20 (getAll s u)) < 2"
    by auto
  from assms(1) nz l2 ne assms(3) r g show ?thesis
    by (simp add: extractImportantFacts_def Let_def)
qed

lemma length_getAllMessages: "length (getAllMessages s u) = getChatCount s u"
  by (simp add: getAllMessages_def order_asc_def getChatCount_def)

text \<open>The messages the extraction reads are the last 20 of all the messages of the user, in
  the order of their time stamps; the cap of \<^verbatim>\<open>getAll\<close> at 100 does not show.\<close>

lemma last_messages_eq:
  "slice_last 20 (getAll s u) = drop (getChatCount s u - 20) (getAllMessages s u)"
proof -
  have "slice_last 20 (slice_last 100 xs) = drop (length xs - 20) xs" for xs :: "chat_message list"
  proof -
    have "length xs - (length xs - 100) - 20 + (length xs - 100) = length xs - 20" by arith
    then show ?thesis by (simp add: slice_last_def)
  qed
  then show ?thesis by (simp add: getAll_def length_getAllMessages [symmetric])
qed

lemma extraction_messages_eq:
  "extraction_messages P ms =
     [system_message (EXTRACTION_PROMPT P),
      user_message
        (EXTRACTION_PROMPT P @ CONVERSATION_HEADER
         @ join [newline]
             (map (\<lambda>m. (if role m = js ''user'' then SPEAKER_OTHER else SPEAKER_ROSE)
                        @ js '': '' @ content m) ms)
         @ REMEMBER_FOOTER)]"
  by (simp add: extraction_messages_def Let_def format_turn_def cong: map_cong)

text \<open>A call of the model client with a message array that is not empty sends it.\<close>

lemma chat_loop_posts:
  assumes le: "attempt \<le> maxRetries"
  shows "\<exists>tr1. snd (chat_loop t msgs attempt lastError tr) = tr @ Post msgs # tr1"
proof (cases "t attempt")
  case (HttpError e)
  show ?thesis
  proof (cases "attempt = maxRetries")
    case True
    with HttpError have "chat_loop t msgs attempt lastError tr =
        (Inl (Some (TransportError e)), tr @ [Post msgs])"
      by (subst chat_loop.simps) simp
    then show ?thesis by simp
  next
    case False
    let ?tr = "tr @ [Post msgs, Sleep (1000 * attempt)]"
    from le False HttpError
    have eq: "chat_loop t msgs attempt lastError tr =
        chat_loop t msgs (attempt + 1) (Some (TransportError e)) ?tr"
      by (subst chat_loop.simps) simp
    from chat_loop_shape [of t msgs "attempt + 1" "Some (TransportError e)" ?tr]
    obtain tr1 where "snd (chat_loop t msgs (attempt + 1) (Some (TransportError e)) ?tr) = ?tr @ tr1"
      by blast
    then show ?thesis unfolding eq by simp
  qed
next
  case (HttpResponse c)
  show ?thesis
  proof (cases "truthy c")
    case (Some answer)
    with HttpResponse le
    have "chat_loop t msgs attempt lastError tr = (Inr answer, tr @ [Post msgs])"
      by (subst chat_loop.simps) simp
    then show ?thesis by simp
  next
    case None
    show ?thesis
    proof (cases "attempt = maxRetries")
      case True
      with HttpResponse None have "chat_loop t msgs attempt lastError tr =
          (Inl (Some EmptyContent), tr @ [Post msgs])"
        by (subst chat_loop.simps) simp
      then show ?thesis by simp
    next
      case False
      let ?tr = "tr @ [Post msgs, Sleep (1000 * attempt)]"
      from le False HttpResponse None
      have eq: "chat_loop t msgs attempt lastError tr = chat_loop t msgs (attempt + 1) lastError ?tr"
        by (subst chat_loop.simps) simp
      from chat_loop_shape [of t msgs "attempt + 1" lastError ?tr]
      obtain tr1 where "snd (chat_loop t msgs (attempt + 1) lastError ?tr) = ?tr @ tr1"
        by blast
      then show ?thesis unfolding eq by simp
    qed
  qed
qed

lemma chatWithLLM_posts:
  assumes "msgs \<noteq> []"
  shows "Post msgs \<in> set (snd (chatWithLLM t msgs))"
proof -
  have "(1::nat) \<le> maxRetries" by (simp add: maxRetries_def)
  from chat_loop_posts [OF this, of t msgs None "[]"] assms show ?thesis
    by (auto simp: chatWithLLM_def)
qed

lemma extractImportantFacts_few:
  "getChatCount s u < 2 \<Longrightarrow> extractImportantFacts E s u = ([], s, [])"
  by (simp add: extractImportantFacts_def Let_def length_last_messages)

lemma extractImportantFacts_effects:
  assumes "u \<noteq> 0" and "2 \<le> getChatCount s u"
  shows "snd (snd (extractImportantFacts E s u)) =
           snd (chatWithLLM (transport E u)
                  (extraction_messages (persona_of E) (slice_last 20 (getAll s u))))"
proof -
  from assms(2) have l: "slice_last 20 (getAll s u) \<noteq> []"
    "\<not> length (slice_last 20 (getAll s u)) < 2"
    using length_last_messages [of s u] by auto
  with assms(1) show ?thesis
    by (auto simp: extractImportantFacts_def Let_def split: prod.splits sum.splits option.splits)
qed

lemma extractImportantFacts_failure:
  assumes "u \<noteq> 0" and "2 \<le> getChatCount s u"
    and "chatWithLLM (transport E u)
           (extraction_messages (persona_of E) (slice_last 20 (getAll s u))) = (Inl e, tr)"
  shows "extractImportantFacts E s u = ([], s, tr)"
proof -
  from assms(2) have l: "slice_last 20 (getAll s u) \<noteq> []"
    "\<not> length (slice_last 20 (getAll s u)) < 2"
    using length_last_messages [of s u] by auto
  with assms(1,3) show ?thesis by (simp add: extractImportantFacts_def Let_def)
qed

text \<open>
  C8. The handler schedules the fact extraction for a user exactly when it completes a
  turn for that user (it then schedules the mood analysis, as it does at the end of every
  completed turn) and the number of stored messages of the user, the two of this turn
  included, is a multiple of 10. The extraction reads the last messages of the user in
  the order of their time stamps, at most 20 of them. With fewer than 2 it returns at
  once, with no request to the model. With 2 or more, its effects are those of one call of
  the model client with a request that it sends at least once: the extraction prompt as
  the system message and, as the user message, the prompt, the header, these last
  messages, one per line with the speaker before each, and the footer. When that call
  throws, no fact is returned or recorded. When it answers with a text: the text that is the
  nothing-to-remember signal leaves the store as it is and returns no facts; any other
  text is split at line feeds, each line loses its bullet prefix and surrounding white
  space, and exactly the lines with more than 3 and fewer than 100 code units are returned
  and recorded, so that the facts of the user are the old ones and these.
\<close>

theorem extraction_trigger_and_parsing:
  assumes "lastMessages = drop (getChatCount s u - 20) (getAllMessages s u)"
    and "request =
      [system_message (EXTRACTION_PROMPT (persona_of E)),
       user_message
         (EXTRACTION_PROMPT (persona_of E) @ CONVERSATION_HEADER
          @ join [newline]
              (map (\<lambda>m. (if role m = js ''user'' then SPEAKER_OTHER else SPEAKER_ROSE)
                         @ js '': '' @ content m) lastMessages)
          @ REMEMBER_FOOTER)]"
    and "facts =
      filter (\<lambda>line. 3 < length line \<and> length line < 100)
        (map (\<lambda>line. js_trim (strip_bullet line)) (split_on newline result))"
  shows "(ScheduleExtract u \<in> set (snd (handleMessage E w msg)) \<longleftrightarrow>
      (\<exists>a b. ScheduleMood u a b \<in> set (snd (handleMessage E w msg)))
      \<and> getChatCount (store (fst (handleMessage E w msg))) u mod 10 = 0)
   \<and> length lastMessages = min 20 (getChatCount s u)
   \<and> suffix lastMessages (getAllMessages s u)
   \<and> (getChatCount s u < 2 \<longrightarrow> extractImportantFacts E s u = ([], s, []))
   \<and> (u \<noteq> 0 \<and> 2 \<le> getChatCount s u \<longrightarrow>
        snd (snd (extractImportantFacts E s u)) = snd (chatWithLLM (transport E u) request)
        \<and> Post request \<in> set (snd (snd (extractImportantFacts E s u)))
        \<and> (\<forall>e tr. chatWithLLM (transport E u) request = (Inl e, tr) \<longrightarrow>
              extractImportantFacts E s u = ([], s, tr))
        \<and> (\<forall>tr. chatWithLLM (transport E u) request = (Inr result, tr) \<longrightarrow>
              (result = NOTHING_SIGNAL \<longrightarrow> extractImportantFacts E s u = ([], s, tr))
            \<and> (result \<noteq> NOTHING_SIGNAL \<longrightarrow>
                  (\<exists>s'. extractImportantFacts E s u = (facts, s', tr)
                     \<and> set (getImportantFacts s' u) = set (getImportantFacts s u) \<union> set facts))))"
proof -
  have lm: "lastMessages = slice_last 20 (getAll s u)"
    using assms(1) by (simp add: last_messages_eq)
  have rq: "request = extraction_messages (persona_of E) (slice_last 20 (getAll s u))"
    using assms(2) by (simp add: extraction_messages_eq lm)
  have fs: "facts = parse_facts result" using assms(3) by (simp add: parse_facts_filter)
  have ne: "request \<noteq> []" using assms(2) by simp
  have a: "length lastMessages = min 20 (getChatCount s u)"
    using assms(1) by (simp add: length_getAllMessages)
  have b: "suffix lastMessages (getAllMessages s u)"
    unfolding assms(1) by (rule suffix_drop)
  have c: "getChatCount s u < 2 \<longrightarrow> extractImportantFacts E s u = ([], s, [])"
    by (simp add: extractImportantFacts_few)
  have d: "snd (snd (extractImportantFacts E s u)) = snd (chatWithLLM (transport E u) request)"
    if "u \<noteq> 0" "2 \<le> getChatCount s u"
    using extractImportantFacts_effects [OF that, of E] by (simp add: rq)
  have e: "Post request \<in> set (snd (snd (extractImportantFacts E s u)))"
    if "u \<noteq> 0" "2 \<le> getChatCount s u"
    using d [OF that] chatWithLLM_posts [OF ne, of "transport E u"] by simp
  have f: "extractImportantFacts E s u = ([], s, tr)"
    if "u \<noteq> 0" "2 \<le> getChatCount s u" "chatWithLLM (transport E u) request = (Inl x, tr)"
    for x tr
    using extractImportantFacts_failure [OF that(1,2), of E x tr] that(3) by (simp add: rq)
  have g: "(result = NOTHING_SIGNAL \<longrightarrow> extractImportantFacts E s u = ([], s, tr))
       \<and> (result \<noteq> NOTHING_SIGNAL \<longrightarrow>
            (\<exists>s'. extractImportantFacts E s u = (facts, s', tr)
               \<and> set (getImportantFacts s' u) = set (getImportantFacts s u) \<union> set facts))"
    if "u \<noteq> 0" "2 \<le> getChatCount s u" "chatWithLLM (transport E u) request = (Inr result, tr)"
    for tr
    using extractImportantFacts_result [OF that(1,2), of E result tr] that(3)
    by (simp add: rq fs)
  from extraction_scheduled_iff [of u E w msg] a b c d e f g show ?thesis by blast
qed

lemma listing_parse: "parse_facts listing_answer = [js ''likes cats'', js ''name is Ming'']"
  by (simp add: listing_answer_def parse_facts_def js_def newline_def strip_bullet_def
      is_bullet_def js_trim_def is_js_space_def)

lemma idle_world_count: "getChatCount (store idle_world) 7 = 2"
  by (simp add: idle_world_def getChatCount_add_many)
     (simp add: getChatCount_def user_messages_def empty_db_def)

lemma eight_world_count: "getChatCount (store eight_world) 7 = 8"
  by (simp add: eight_world_def getChatCount_add_many)
     (simp add: getChatCount_def user_messages_def empty_db_def)

lemma store_save_user_name [simp]: "store (save_user_name w u name) = store w"
  by (simp add: save_user_name_def split: option.splits)

lemma hello_turn:
  "\<exists>w1 tr. store w1 = store eight_world
     \<and> handleMessage example_env eight_world hello_message =
         after_reply example_env w1 7 (js ''hello'') (js ''How are you?'') tr"
proof -
  let ?w1 = "save_user_name eight_world 7
      (js_or (tg_username hello_message) (js_or (tg_first_name hello_message) None))"
  have h: "js ''hello'' \<noteq> []" by (simp add: js_def)
  from buildMessages_total [OF _ h, of 7 example_env ?w1 "clock example_env 0"]
  obtain ms where b: "buildMessages example_env ?w1 (clock example_env 0) 7 (js ''hello'') = Inr ms"
    and ne: "ms \<noteq> []"
    by auto
  have t: "transport example_env 7 1 = HttpResponse (Some (js ''How are you?''))"
    by (simp add: example_env_def)
  have r: "js ''How are you?'' \<noteq> []" by (simp add: js_def)
  have c: "chatWithLLM (transport example_env 7) ms = (Inr (js ''How are you?''), [Post ms])"
    using chatWithLLM_first_success [of ms "transport example_env 7" "js ''How are you?''"] ne t r
    by simp
  have "handleMessage example_env eight_world hello_message =
      after_reply example_env ?w1 7 (js ''hello'') (js ''How are you?'')
        (SendChatAction (IdNumber 7) # [Post ms] @ [SendMessage (IdNumber 7) (js ''How are you?'')])"
  proof (rule handleMessage_completed [OF _ _ _ _ _ _ b c])
    show "tg_chat hello_message = Some 7" by (simp add: hello_message_def)
    show "(7::int) \<noteq> 0" by simp
    show "truthy (tg_text hello_message) = Some (js ''hello'')"
      by (simp add: hello_message_def truthy_def js_def)
    show "length (js ''hello'') \<le> MAX_MESSAGE_LENGTH" by (simp add: js_def MAX_MESSAGE_LENGTH_def)
    show "\<not> startsWith_slash (js ''hello'')" by (simp add: startsWith_slash_def js_def)
    show "bot_ok example_env (SendChatAction (IdNumber 7))" by (simp add: example_env_def)
    show "js_trim (js ''How are you?'') \<noteq> []" by (simp add: js_trim_how_are_you r)
    show "length (js ''How are you?'') \<le> TELEGRAM_LIMIT" by (simp add: js_def TELEGRAM_LIMIT_def)
    show "bot_ok example_env (SendMessage (IdNumber 7) (js ''How are you?''))" by (simp add: example_env_def)
  qed
  moreover have "store ?w1 = store eight_world" by simp
  ultimately show ?thesis by blast
qed

lemma hello_turn_completed:
  "ScheduleMood 7 (js ''hello'') (js ''How are you?'')
     \<in> set (snd (handleMessage example_env eight_world hello_message))
   \<and> getChatCount (store (fst (handleMessage example_env eight_world hello_message))) 7 = 10"
proof -
  from hello_turn obtain w1 tr where s: "store w1 = store eight_world"
    and h: "handleMessage example_env eight_world hello_message =
         after_reply example_env w1 7 (js ''hello'') (js ''How are you?'') tr"
    by blast
  from after_reply_result [of 7 example_env w1 "js ''hello''" "js ''How are you?''" tr]
  show ?thesis unfolding h by (simp add: s eight_world_count)
qed

lemma idle_world_last_messages:
  "drop (getChatCount (store idle_world) 7 - 20) (getAllMessages (store idle_world) 7)
     = [user_message (js ''hi''), user_message (js ''hi'')]"
  by (simp add: idle_world_count)
     (simp add: idle_world_def getAllMessages_def order_asc_def user_messages_def eval_nat_numeral
        add_def keep_on_error_def insertMessage_def empty_db_def project_message_def
        user_message_def js_def)

lemma hi_request_eq:
  assumes "EXTRACTION_PROMPT (persona_of E) = js ''Extract what is worth remembering.''"
  shows "hi_request =
      [system_message (EXTRACTION_PROMPT (persona_of E)),
       user_message
         (EXTRACTION_PROMPT (persona_of E) @ CONVERSATION_HEADER
          @ join [newline]
              (map (\<lambda>m. (if role m = js ''user'' then SPEAKER_OTHER else SPEAKER_ROSE)
                         @ js '': '' @ content m)
                 [user_message (js ''hi''), user_message (js ''hi'')])
          @ REMEMBER_FOOTER)]"
  by (simp add: hi_request_def assms user_message_def js_def)

lemma listing_facts:
  "[js ''likes cats'', js ''name is Ming''] =
     filter (\<lambda>line. 3 < length line \<and> length line < 100)
       (map (\<lambda>line. js_trim (strip_bullet line)) (split_on newline listing_answer))"
  using listing_parse by (simp add: parse_facts_filter)

theorem extraction_trigger_and_parsing_witness:
  "ScheduleExtract 7 \<in> set (snd (handleMessage example_env eight_world hello_message))
   \<and> getChatCount (store (fst (handleMessage example_env eight_world hello_message))) 7 = 10
   \<and> drop (getChatCount (store idle_world) 7 - 20) (getAllMessages (store idle_world) 7)
       = [user_message (js ''hi''), user_message (js ''hi'')]
   \<and> snd (snd (extractImportantFacts listing_env (store idle_world) 7)) = [Post hi_request]
   \<and> fst (extractImportantFacts listing_env (store idle_world) 7)
       = [js ''likes cats'', js ''name is Ming'']
   \<and> set (getImportantFacts (fst (snd (extractImportantFacts listing_env (store idle_world) 7))) 7)
       = set (getImportantFacts (store idle_world) 7) \<union> {js ''likes cats'', js ''name is Ming''}
   \<and> extractImportantFacts nothing_env (store idle_world) 7
       = ([], store idle_world, [Post hi_request])"
proof -
  let ?s = "store idle_world"
  let ?last = "[user_message (js ''hi''), user_message (js ''hi'')]"
  have trigger: "ScheduleExtract 7 \<in> set (snd (handleMessage example_env eight_world hello_message))"
    using extraction_trigger_and_parsing
      [OF refl refl refl, THEN conjunct1, of 7 example_env eight_world hello_message]
      hello_turn_completed
    by auto
  have pl: "EXTRACTION_PROMPT (persona_of listing_env) = js ''Extract what is worth remembering.''"
    and pn: "EXTRACTION_PROMPT (persona_of nothing_env) = js ''Extract what is worth remembering.''"
    by (simp_all add: listing_env_def nothing_env_def example_env_def example_persona_def)
  have rn: "hi_request \<noteq> []" by (simp add: hi_request_def)
  have ln: "listing_answer \<noteq> []" "listing_answer \<noteq> NOTHING_SIGNAL"
    by (simp_all add: listing_answer_def js_def NOTHING_SIGNAL_def)
  have nn: "NOTHING_SIGNAL \<noteq> []" by (simp add: NOTHING_SIGNAL_def)
  have cl: "chatWithLLM (transport listing_env 7) hi_request = (Inr listing_answer, [Post hi_request])"
    by (rule chatWithLLM_first_success [OF rn _ ln(1)]) (simp add: listing_env_def)
  have cn: "chatWithLLM (transport nothing_env 7) hi_request = (Inr NOTHING_SIGNAL, [Post hi_request])"
    by (rule chatWithLLM_first_success [OF rn _ nn]) (simp add: nothing_env_def)
  have two: "(7::int) \<noteq> 0 \<and> 2 \<le> getChatCount ?s 7" by (simp add: idle_world_count)
  from extraction_trigger_and_parsing
    [OF idle_world_last_messages [symmetric] hi_request_eq [OF pl] listing_facts,
      where w = idle_world and msg = hello_message]
    two cl ln(2)
  have "\<exists>s'. extractImportantFacts listing_env ?s 7
        = ([js ''likes cats'', js ''name is Ming''], s', [Post hi_request])
      \<and> set (getImportantFacts s' 7)
        = set (getImportantFacts ?s 7) \<union> set [js ''likes cats'', js ''name is Ming'']"
    by simp
  then obtain s' where l: "extractImportantFacts listing_env ?s 7
        = ([js ''likes cats'', js ''name is Ming''], s', [Post hi_request])"
    and g: "set (getImportantFacts s' 7)
        = set (getImportantFacts ?s 7) \<union> set [js ''likes cats'', js ''name is Ming'']"
    by auto
  from extraction_trigger_and_parsing
    [OF idle_world_last_messages [symmetric] hi_request_eq [OF pn] refl,
      where result = NOTHING_SIGNAL and w = idle_world and msg = hello_message]
    two cn
  have q: "extractImportantFacts nothing_env ?s 7 = ([], ?s, [Post hi_request])"
    by simp
  from trigger hello_turn_completed idle_world_last_messages l g q show ?thesis by simp
qed

section \<open>The scheduler after a turn\<close>

text \<open>The handler writes its times under the number of the chat: it leaves every text key of
  the interaction times and the whole map of the proactive messages as they were.\<close>

lemma handle_failure_world [simp]: "fst (handle_failure E w u tr) = w"
  by (simp add: handle_failure_def)

lemma save_user_name_times [simp]:
  "lastInteractionTime (save_user_name w u name) = lastInteractionTime w"
  "lastActiveMessageTime (save_user_name w u name) = lastActiveMessageTime w"
  by (simp_all add: save_user_name_def split: option.splits)

lemma after_reply_text_keys:
  "lastInteractionTime (fst (after_reply E w u um reply tr)) (IdText v) = lastInteractionTime w (IdText v)
   \<and> lastActiveMessageTime (fst (after_reply E w u um reply tr)) = lastActiveMessageTime w"
  by (simp add: after_reply_def Let_def split: sum.splits)

lemma handleMessage_text_keys:
  "lastInteractionTime (fst (handleMessage E w msg)) (IdText v) = lastInteractionTime w (IdText v)
   \<and> lastActiveMessageTime (fst (handleMessage E w msg)) = lastActiveMessageTime w"
  by (simp add: handleMessage_def Let_def after_reply_text_keys
      split: option.splits sum.splits prod.splits)

lemma hello_turn_in:
  assumes t: "transport E 7 1 = HttpResponse (Some (js ''How are you?''))"
    and ok: "\<And>e. bot_ok E e"
  shows "\<exists>tr. handleMessage E w hello_message =
           after_reply E (save_user_name w 7 (Some (js ''ming''))) 7 (js ''hello'')
             (js ''How are you?'') tr"
proof -
  have nm: "js_or (tg_username hello_message) (js_or (tg_first_name hello_message) None)
      = Some (js ''ming'')"
    by (simp add: hello_message_def js_or_def truthy_def js_def)
  let ?w1 = "save_user_name w 7 (Some (js ''ming''))"
  have h: "js ''hello'' \<noteq> []" by (simp add: js_def)
  from buildMessages_total [OF _ h, of 7 E ?w1 "clock E 0"]
  obtain ms where b: "buildMessages E ?w1 (clock E 0) 7 (js ''hello'') = Inr ms"
    and ne: "ms \<noteq> []"
    by auto
  have r: "js ''How are you?'' \<noteq> []" by (simp add: js_def)
  have c: "chatWithLLM (transport E 7) ms = (Inr (js ''How are you?''), [Post ms])"
    using chatWithLLM_first_success [of ms "transport E 7" "js ''How are you?''"] ne t r
    by simp
  have "handleMessage E w hello_message =
      after_reply E ?w1 7 (js ''hello'') (js ''How are you?'')
        (SendChatAction (IdNumber 7) # [Post ms] @ [SendMessage (IdNumber 7) (js ''How are you?'')])"
    unfolding nm [symmetric]
  proof (rule handleMessage_completed [OF _ _ _ _ _ _ _ c])
    show "tg_chat hello_message = Some 7" by (simp add: hello_message_def)
    show "(7::int) \<noteq> 0" by simp
    show "truthy (tg_text hello_message) = Some (js ''hello'')"
      by (simp add: hello_message_def truthy_def js_def)
    show "length (js ''hello'') \<le> MAX_MESSAGE_LENGTH" by (simp add: js_def MAX_MESSAGE_LENGTH_def)
    show "\<not> startsWith_slash (js ''hello'')" by (simp add: startsWith_slash_def js_def)
    show "bot_ok E (SendChatAction (IdNumber 7))" by (rule ok)
    show "buildMessages E (save_user_name w 7
        (js_or (tg_username hello_message) (js_or (tg_first_name hello_message) None)))
        (clock E 0) 7 (js ''hello'') = Inr ms"
      using b by (simp add: nm)
    show "js_trim (js ''How are you?'') \<noteq> []" by (simp add: js_trim_how_are_you r)
    show "length (js ''How are you?'') \<le> TELEGRAM_LIMIT" by (simp add: js_def TELEGRAM_LIMIT_def)
    show "bot_ok E (SendMessage (IdNumber 7) (js ''How are you?''))" by (rule ok)
  qed
  then show ?thesis by blast
qed

lemma chatting_world_eq:
  "chatting_world =
     \<lparr>store = insertMessage (insertMessage empty_db 7 (js ''user'') (js ''hello'') (minutes 595 + 1))
                7 (js ''assistant'') (js ''How are you?'') (minutes 595 + 2),
      lastMessageTime = [IdNumber 7 \<mapsto> minutes 595 + 3],
      userNames = [IdNumber 7 \<mapsto> js ''ming''],
      lastInteractionTime = [IdNumber 7 \<mapsto> minutes 595 + 3],
      lastActiveMessageTime = Map.empty\<rparr>"
proof -
  have t: "transport earlier_env 7 1 = HttpResponse (Some (js ''How are you?''))"
    by (simp add: earlier_env_def example_env_def)
  have ok: "bot_ok earlier_env e" for e by (simp add: earlier_env_def example_env_def)
  from hello_turn_in [OF t ok, of fresh_world] obtain tr where
    h: "handleMessage earlier_env fresh_world hello_message =
           after_reply earlier_env (save_user_name fresh_world 7 (Some (js ''ming''))) 7 (js ''hello'')
             (js ''How are you?'') tr"
    by blast
  have n: "js ''user'' \<noteq> []" "js ''assistant'' \<noteq> []" by (simp_all add: js_def)
  show ?thesis
    unfolding chatting_world_def h
    by (simp add: after_reply_def add_def n Let_def save_user_name_def fresh_world_def
        earlier_env_def)
qed

lemma chatting_world_users: "getUserIds (store chatting_world) = [IdText 7]"
  by (simp add: chatting_world_eq getUserIds_def getUserIds_stmt_def insertMessage_def empty_db_def)

text \<open>
  C3. For every known user a sweep is to send a proactive message exactly when both gates
  hold, and the first gate is that more than 30 minutes passed since the last interaction.
  The code does not keep to it: the gate never sees an interaction. The user of chat 7
  writes at minute 595, and the handler records the interaction under the number 7. The
  sweep of minute 600 reads the id of the chat from the store, as the text stored for 7,
  finds no interaction under that text, takes 0 for its time, and hands a proactive
  message to the Telegram client five minutes after the user wrote. The gate of the last
  proactive message and the stamping work as described (\<open>sweep_by_id\<close>, \<open>sweep_examples\<close>):
  that time is written and read by the sweep under the same text.
\<close>

theorem sweep_ignores_recent_interaction:
  "lastInteractionTime chatting_world (IdNumber 7) = Some (minutes 595 + 3)
   \<and> sweep_now example_env 7 = minutes 600
   \<and> minutes 600 - (minutes 595 + 3) < USER_INACTIVE_THRESHOLD
   \<and> getUserIds (store chatting_world) = [IdText 7]
   \<and> sent_to (IdText 7) (snd (initiateActiveConversation example_env chatting_world))
       = [js ''How are you?'']
   \<and> lastActiveMessageTime (fst (initiateActiveConversation example_env chatting_world)) (IdText 7)
       = Some (minutes 600)"
proof -
  have f: "\<not> read_fault example_env ReadUserIds" by (simp add: example_env_def)
  have n: "sweep_now example_env 7 = minutes 600" by (simp add: example_env_def)
  have ok: "bot_ok example_env e" for e by (simp add: example_env_def)
  have u: "IdText 7 \<in> set (getUserIds (store chatting_world))" by (simp add: chatting_world_users)
  have i: "lastInteractionTime chatting_world (IdNumber 7) = Some (minutes 595 + 3)"
    by (simp add: chatting_world_eq)
  have g: "gates_open chatting_world (minutes 600) (IdText 7)"
    by (simp add: gates_open_def chatting_world_eq get_or_0_def minutes_def
        USER_INACTIVE_THRESHOLD_def ACTIVE_MESSAGE_INTERVAL_def)
  have c: "minutes 600 - (minutes 595 + 3) < USER_INACTIVE_THRESHOLD"
    by (simp add: minutes_def USER_INACTIVE_THRESHOLD_def)
  from sweep_by_id [OF f u] show ?thesis
    by (simp add: n ok g i c chatting_world_users example_generated)
qed

section \<open>The caches\<close>

subsection \<open>Sorting rows with different time stamps\<close>










subsection \<open>The invariant of the caching revision\<close>














subsection \<open>Time stamps that differ\<close>








end
